theory Spec2Isabelle
  imports Main "HOL-Library.Word"
begin

section \<open>Data model of the inference test (app/test-mldev/test_inference_common.c)\<close>

text \<open>
  Machine integers are words of the width the source declares. Pointers to pooled objects
  are addresses (natural numbers) into typed heaps; a pointer to a memory pool or a memzone
  is the name under which the EAL registered it, and \<open>None\<close> is \<open>NULL\<close>. The byte contents
  of buffers and files are opaque to the test core (only the quantize and dequantize codec
  of the device touches them), so a file is represented by its length.
\<close>

type_synonym u8 = "8 word"
type_synonym u16 = "16 word"
type_synonym u32 = "32 word"
type_synonym u64 = "64 word"
type_synonym addr = nat

text \<open>Values of \<open>errno.h\<close> used by the source.\<close>

definition ENOENT :: int where "ENOENT = 2"
definition ENOMEM :: int where "ENOMEM = 12"
definition EINVAL :: int where "EINVAL = 22"

datatype ml_test_result = ML_TEST_SUCCESS | ML_TEST_FAILED

datatype model_state = MODEL_INITIAL | MODEL_LOADED | MODEL_STARTED | MODEL_FINISHED

datatype worker_fn = ML_ENQUEUE_SINGLE | ML_DEQUEUE_SINGLE

datatype fault = Fault

record ml_filelist =
  model_path :: string
  input_path :: string
  output_path :: string

text \<open>\<open>struct ml_options\<close>: \<open>nb_filelist\<close> is the length of \<open>filelist\<close>.\<close>

record ml_options =
  dev_id :: int
  socket_id :: int
  filelist :: "ml_filelist list"
  repetitions :: u64

record ml_core_args =
  nb_reqs :: u64
  start_fid :: u16
  end_fid :: u16

record ml_request =
  req_input :: addr
  req_output :: addr
  fid :: u16
  niters :: u64

datatype rte_ml_op_status = RTE_ML_OP_STATUS_SUCCESS | RTE_ML_OP_STATUS_ERROR

record rte_ml_buff_seg =
  seg_addr :: addr
  seg_length :: u32
  seg_next :: "addr option"

record rte_ml_op =
  op_model_id :: nat
  nb_batches :: nat
  op_mempool :: "string option"
  op_input :: rte_ml_buff_seg
  op_output :: rte_ml_buff_seg
  user_ptr :: addr
  status :: rte_ml_op_status

record ml_model =
  model_id :: nat
  batch_size :: nat
  inp_qsize :: u64
  inp_dsize :: u64
  out_qsize :: u64
  out_dsize :: u64
  model_input :: "addr option"
  model_output :: "addr option"
  io_pool :: "string option"
  mstate :: model_state

record rte_ml_dev_info =
  max_models :: nat
  max_desc :: nat
  min_align_size :: u64

text \<open>
  \<open>struct test_inference\<close>. The arrays \<open>model\<close>, \<open>args\<close> and \<open>error_count\<close> are lists; the
  length of \<open>args\<close> and of \<open>error_count\<close> is \<open>RTE_MAX_LCORE\<close>, the length of \<open>model\<close> is
  \<open>ML_TEST_MAX_MODELS\<close>.
\<close>

record test_inference =
  cmn_result :: ml_test_result
  cmn_opt :: "ml_options option"
  cmn_dev_info :: rte_ml_dev_info
  model :: "ml_model list"
  op_pool :: "string option"
  nb_used :: u64
  t_fid :: u16
  enqueue :: "worker_fn option"
  dequeue :: "worker_fn option"
  args :: "ml_core_args list"
  error_count :: "u64 list"

section \<open>The environment: EAL registries, object heaps, files and the device queue\<close>

text \<open>
  A memory pool (\<open>struct rte_mempool\<close>): its capacity, the size of one element, the
  addresses of all its objects (the list \<open>rte_mempool_obj_iter\<close> walks) and the addresses
  currently available to \<open>rte_mempool_get\<close>.
\<close>

record rte_mempool =
  mp_size :: nat
  mp_elt_size :: nat
  mp_elts :: "addr list"
  mp_avail :: "addr list"

record rte_memzone =
  mz_addr :: addr
  mz_len :: nat

text \<open>
  The device: queue pair 0 (the operations submitted and not yet handed back, and the number
  of descriptors), the counters of \<open>struct rte_ml_dev_stats\<close>, and what
  \<open>rte_ml_io_input_size_get\<close> and \<open>rte_ml_io_output_size_get\<close> answer for a model id and a
  batch size: the return code, the quantized size and the dequantized size.
\<close>

record ml_dev =
  inflight :: "addr list"
  nb_desc :: nat
  enqueued_count :: nat
  dequeued_count :: nat
  input_size_get :: "nat \<Rightarrow> nat \<Rightarrow> int \<times> u64 \<times> u64"
  output_size_get :: "nat \<Rightarrow> nat \<Rightarrow> int \<times> u64 \<times> u64"

record world =
  priv :: test_inference
  memzones :: "string \<Rightarrow> rte_memzone option"
  mempools :: "string \<Rightarrow> rte_mempool option"
  reqs :: "addr \<Rightarrow> ml_request"
  ops :: "addr \<Rightarrow> rte_ml_op"
  next_addr :: addr
  mem_free :: nat
  files :: "string \<Rightarrow> nat option"
  errno :: int
  lcores :: "nat list"
  main_lcore :: nat
  dev :: ml_dev

section \<open>Option validation and test setup\<close>

text \<open>
  \<open>test_inference_opt_check\<close>. The result of \<open>ml_test_opt_check\<close> (the check of the common
  options, defined outside this file) is the parameter \<open>common_ret\<close>; \<open>access(path, F_OK)\<close>
  fails exactly for a path that is not in \<open>files\<close>; \<open>rte_lcore_count\<close> is the number of
  enabled lcores.
\<close>

fun check_files :: "(string \<Rightarrow> nat option) \<Rightarrow> ml_filelist list \<Rightarrow> int" where
  "check_files fs [] = 0"
| "check_files fs (f # rest) =
     (if fs (model_path f) = None then - ENOENT
      else if fs (input_path f) = None then - ENOENT
      else check_files fs rest)"

definition rte_lcore_count :: "world \<Rightarrow> nat" where
  "rte_lcore_count w = length (lcores w)"

definition test_inference_opt_check :: "int \<Rightarrow> world \<Rightarrow> ml_options \<Rightarrow> int" where
  "test_inference_opt_check common_ret w opt =
     (if common_ret \<noteq> 0 then common_ret
      else if check_files (files w) (filelist opt) \<noteq> 0
        then check_files (files w) (filelist opt)
      else if repetitions opt = 0 then - EINVAL
      else if rte_lcore_count w < 3 then - EINVAL
      else 0)"

text \<open>
  \<open>test_inference_setup\<close> on the zero-filled \<open>struct test_inference\<close> that
  \<open>rte_zmalloc_socket\<close> returns. \<open>zmalloc_ok\<close> tells whether the allocation succeeded and
  \<open>info_ret\<close> is what \<open>rte_ml_dev_info_get\<close> returned with the device information
  \<open>info\<close>; \<open>nlcore\<close> and \<open>nmodels\<close> are \<open>RTE_MAX_LCORE\<close> and \<open>ML_TEST_MAX_MODELS\<close>.
  On an error the private data is freed and nothing is returned but the code.
\<close>

definition zero_model :: ml_model where
  "zero_model = \<lparr> model_id = 0, batch_size = 0, inp_qsize = 0, inp_dsize = 0, out_qsize = 0,
     out_dsize = 0, model_input = None, model_output = None, io_pool = None,
     mstate = MODEL_INITIAL \<rparr>"

definition zero_args :: ml_core_args where
  "zero_args = \<lparr> nb_reqs = 0, start_fid = 0, end_fid = 0 \<rparr>"

definition zero_test_inference :: "nat \<Rightarrow> nat \<Rightarrow> test_inference" where
  "zero_test_inference nlcore nmodels =
     \<lparr> cmn_result = ML_TEST_SUCCESS, cmn_opt = None,
       cmn_dev_info = \<lparr> max_models = 0, max_desc = 0, min_align_size = 0 \<rparr>,
       model = replicate nmodels zero_model, op_pool = None, nb_used = 0, t_fid = 0,
       enqueue = None, dequeue = None, args = replicate nlcore zero_args,
       error_count = replicate nlcore 0 \<rparr>"

definition set_initial_state :: "nat \<Rightarrow> ml_model list \<Rightarrow> ml_model list" where
  "set_initial_state n ms =
     map (\<lambda>m. m\<lparr> mstate := MODEL_INITIAL \<rparr>) (take n ms) @ drop n ms"

definition test_inference_setup ::
  "nat \<Rightarrow> nat \<Rightarrow> bool \<Rightarrow> int \<Rightarrow> rte_ml_dev_info \<Rightarrow> ml_options \<Rightarrow> int \<times> test_inference option" where
  "test_inference_setup nlcore nmodels zmalloc_ok info_ret info opt =
     (if \<not> zmalloc_ok then (- ENOMEM, None)
      else if info_ret < 0 then (info_ret, None)
      else (0, Some ((zero_test_inference nlcore nmodels)
              \<lparr> nb_used := 0, cmn_result := ML_TEST_FAILED, cmn_opt := Some opt,
                error_count := replicate nlcore 0, cmn_dev_info := info,
                enqueue := Some ML_ENQUEUE_SINGLE, dequeue := Some ML_DEQUEUE_SINGLE,
                model := set_initial_state (length (filelist opt))
                           (replicate nmodels zero_model) \<rparr>)))"

section \<open>The launcher\<close>

text \<open>
  \<open>RTE_LCORE_FOREACH_WORKER\<close> visits, in ascending order, every enabled lcore below
  \<open>RTE_MAX_LCORE\<close> that is not the main lcore. \<open>ml_inference_launch_cores\<close> returns the
  updated test data and the calls of \<open>rte_eal_remote_launch\<close> it made, in order, each the
  function pointer and the lcore.
\<close>

definition worker_lcores :: "world \<Rightarrow> nat list" where
  "worker_lcores w =
     filter (\<lambda>i. i \<in> set (lcores w) \<and> i \<noteq> main_lcore w) [0 ..< length (args (priv w))]"

fun launch_loop ::
  "ml_options \<Rightarrow> u16 \<Rightarrow> u16 \<Rightarrow> nat list \<Rightarrow> u32 \<Rightarrow> test_inference \<Rightarrow> (worker_fn option \<times> nat) list
     \<Rightarrow> test_inference \<times> (worker_fn option \<times> nat) list" where
  "launch_loop opt sfid efid [] idn ti launched = (ti, launched)"
| "launch_loop opt sfid efid (lcore_id # rest) idn ti launched =
     (if idn = 2 then (ti, launched)
      else
        let ti' = ti\<lparr> args := (args ti)[lcore_id :=
                     \<lparr> nb_reqs = repetitions opt, start_fid = sfid, end_fid = efid \<rparr>] \<rparr>;
            f = (if unat idn mod 2 = 0 then enqueue ti' else dequeue ti')
        in launch_loop opt sfid efid rest (idn + 1) ti' (launched @ [(f, lcore_id)]))"

definition ml_inference_launch_cores ::
  "world \<Rightarrow> ml_options \<Rightarrow> u16 \<Rightarrow> u16 \<Rightarrow> int \<times> world \<times> (worker_fn option \<times> nat) list" where
  "ml_inference_launch_cores w opt sfid efid =
     (let (ti, launched) = launch_loop opt sfid efid (worker_lcores w) 0 (priv w) []
      in (0, w\<lparr> priv := ti \<rparr>, launched))"

section \<open>Memzones and memory pools of the EAL\<close>

text \<open>
  Modelled from the spec: the EAL functions \<open>rte_memzone_reserve\<close>, \<open>rte_memzone_lookup\<close>,
  \<open>rte_memzone_free\<close>, \<open>rte_mempool_create\<close>, \<open>rte_mempool_lookup\<close>, \<open>rte_mempool_free\<close>,
  \<open>rte_mempool_get\<close>, \<open>rte_mempool_put\<close> and \<open>rte_mempool_obj_iter\<close> are called by the
  source and defined outside it. A reservation or a pool construction fails when its
  name is taken or the backing memory cannot be reserved; a failed construction creates
  nothing. Freeing through a pointer to a pool that no longer exists is a fault.
\<close>

definition rte_memzone_reserve ::
  "string \<Rightarrow> nat \<Rightarrow> world \<Rightarrow> (string \<times> rte_memzone) option \<times> world" where
  "rte_memzone_reserve name len w =
     (if memzones w name \<noteq> None \<or> mem_free w < len then (None, w)
      else
        let mz = \<lparr> mz_addr = next_addr w, mz_len = len \<rparr>
        in (Some (name, mz),
            w\<lparr> memzones := (memzones w)(name \<mapsto> mz),
               next_addr := next_addr w + len, mem_free := mem_free w - len \<rparr>))"

definition rte_memzone_lookup :: "string \<Rightarrow> world \<Rightarrow> string option" where
  "rte_memzone_lookup name w = (if memzones w name = None then None else Some name)"

definition rte_memzone_free :: "string \<Rightarrow> world \<Rightarrow> world" where
  "rte_memzone_free name w =
     (case memzones w name of
        None \<Rightarrow> w
      | Some mz \<Rightarrow> w\<lparr> memzones := (memzones w)(name := None),
                      mem_free := mem_free w + mz_len mz \<rparr>)"

text \<open>
  \<open>rte_mempool_create name n elt_size obj_init\<close>: the objects are laid out one after the
  other from \<open>next_addr\<close>, the callback \<open>obj_init\<close> runs on each object in order, and every
  object is available.
\<close>

definition rte_mempool_create ::
  "string \<Rightarrow> nat \<Rightarrow> nat \<Rightarrow> (addr \<Rightarrow> world \<Rightarrow> world) \<Rightarrow> world \<Rightarrow> string option \<times> world" where
  "rte_mempool_create name n elt_size obj_init w =
     (if mempools w name \<noteq> None \<or> mem_free w < n * elt_size then (None, w)
      else
        let objs = map (\<lambda>i. next_addr w + i * elt_size) [0 ..< n];
            w1 = w\<lparr> mempools := (mempools w)(name \<mapsto>
                       \<lparr> mp_size = n, mp_elt_size = elt_size, mp_elts = objs, mp_avail = objs \<rparr>),
                     next_addr := next_addr w + n * elt_size,
                     mem_free := mem_free w - n * elt_size \<rparr>
        in (Some name, fold obj_init objs w1))"

definition rte_mempool_lookup :: "string \<Rightarrow> world \<Rightarrow> string option" where
  "rte_mempool_lookup name w = (if mempools w name = None then None else Some name)"

definition rte_mempool_free :: "string \<Rightarrow> world \<Rightarrow> fault + world" where
  "rte_mempool_free mp w =
     (case mempools w mp of
        None \<Rightarrow> Inl Fault
      | Some p \<Rightarrow> Inr (w\<lparr> mempools := (mempools w)(mp := None),
                          mem_free := mem_free w + mp_size p * mp_elt_size p \<rparr>))"

text \<open>
  \<open>rte_mempool_get\<close>: an object of the pool (the return code 0), or \<open>None\<close> for the
  negative code of an empty pool.
\<close>

definition rte_mempool_get :: "string option \<Rightarrow> world \<Rightarrow> fault + (addr option \<times> world)" where
  "rte_mempool_get mp w =
     (case mp of
        None \<Rightarrow> Inl Fault
      | Some name \<Rightarrow>
          (case mempools w name of
             None \<Rightarrow> Inl Fault
           | Some p \<Rightarrow>
               (case mp_avail p of
                  [] \<Rightarrow> Inr (None, w)
                | a # rest \<Rightarrow>
                    Inr (Some a,
                         w\<lparr> mempools := (mempools w)(name \<mapsto> p\<lparr> mp_avail := rest \<rparr>) \<rparr>))))"

definition rte_mempool_put :: "string option \<Rightarrow> addr \<Rightarrow> world \<Rightarrow> fault + world" where
  "rte_mempool_put mp obj w =
     (case mp of
        None \<Rightarrow> Inl Fault
      | Some name \<Rightarrow>
          (case mempools w name of
             None \<Rightarrow> Inl Fault
           | Some p \<Rightarrow>
               Inr (w\<lparr> mempools := (mempools w)(name \<mapsto> p\<lparr> mp_avail := obj # mp_avail p \<rparr>) \<rparr>)))"

section \<open>Per-model buffers: \<open>ml_inference_iomem_setup\<close> and \<open>ml_inference_iomem_destroy\<close>\<close>

text \<open>
  Constants of headers outside the source: \<open>ML_TEST_MAX_POOL_SIZE\<close>,
  \<open>sizeof(struct ml_request)\<close> and \<open>sizeof(struct rte_ml_op)\<close>.
\<close>

record build_config =
  ML_TEST_MAX_POOL_SIZE :: u32
  sizeof_ml_request :: u64
  sizeof_rte_ml_op :: nat

unbundle bit_operations_syntax

text \<open>The macro \<open>RTE_ALIGN_CEIL\<close> of \<open>rte_common.h\<close> on 64-bit values.\<close>

definition RTE_ALIGN_CEIL :: "u64 \<Rightarrow> u64 \<Rightarrow> u64" where
  "RTE_ALIGN_CEIL v a = (v + (a - 1)) AND NOT (a - 1)"

text \<open>\<open>sprintf(..., "%d", fid)\<close>: the decimal digits of a number.\<close>

function dec :: "nat \<Rightarrow> string" where
  "dec n = (if n < 10 then [''0123456789'' ! n]
            else dec (n div 10) @ [''0123456789'' ! (n mod 10)])"
  by pat_completeness auto
termination
  by (relation "measure id") auto

declare dec.simps [simp del]

definition mz_name :: "u16 \<Rightarrow> string" where
  "mz_name fd = ''ml_user_data_'' @ dec (unat fd)"

definition mp_name :: "u16 \<Rightarrow> string" where
  "mp_name fd = ''ml_io_pool_'' @ dec (unat fd)"

text \<open>
  The callback \<open>ml_request_initialize\<close>: it computes the input and output regions of the
  object and clears its iteration counter; the field \<open>fid\<close> keeps whatever the memory held.
  The quantized bytes it writes into the input region are not represented.
\<close>

definition ml_request_initialize :: "build_config \<Rightarrow> addr \<Rightarrow> world \<Rightarrow> world" where
  "ml_request_initialize cfg obj w =
     (let ti = priv w;
          al = min_align_size (cmn_dev_info ti);
          inp = obj + unat (RTE_ALIGN_CEIL (sizeof_ml_request cfg) al);
          outp = inp + unat (RTE_ALIGN_CEIL (inp_qsize (model ti ! unat (t_fid ti))) al)
      in w\<lparr> reqs := (reqs w)(obj := (reqs w obj)\<lparr> req_input := inp, req_output := outp,
                                                   niters := 0 \<rparr>) \<rparr>)"

definition upd_model :: "nat \<Rightarrow> (ml_model \<Rightarrow> ml_model) \<Rightarrow> world \<Rightarrow> world" where
  "upd_model i f w =
     w\<lparr> priv := (priv w)\<lparr> model := (model (priv w))[i := f (model (priv w) ! i)] \<rparr> \<rparr>"

text \<open>
  The two size queries. The sizes are stored in the model when the device answers 0; the
  first failing query returns its code.
\<close>

definition get_io_sizes :: "world \<Rightarrow> nat \<Rightarrow> int \<times> world" where
  "get_io_sizes w i =
     (let m = model (priv w) ! i;
          (ret1, iq, idz) = input_size_get (dev w) (model_id m) (batch_size m)
      in if ret1 \<noteq> 0 then (ret1, w)
         else
           let w1 = upd_model i (\<lambda>m. m\<lparr> inp_qsize := iq, inp_dsize := idz \<rparr>) w;
               (ret2, oq, odz) = output_size_get (dev w1) (model_id m) (batch_size m)
           in if ret2 \<noteq> 0 then (ret2, w1)
              else (0, upd_model i (\<lambda>m. m\<lparr> out_qsize := oq, out_dsize := odz \<rparr>) w1))"

text \<open>
  Loading the input file. The result is \<open>Some ret\<close> when the code jumps to the label
  \<open>error\<close> with \<open>ret\<close>, and \<open>None\<close> when the file was read. \<open>fopen\<close> fails for a
  missing file and sets \<open>errno\<close>; the length that \<open>ftell\<close> reports is stored in the 32-bit
  \<open>fsize\<close> and compared with the 64-bit \<open>inp_dsize\<close>; \<open>fread\<close> delivers as many bytes as
  the file has, up to the number asked.
\<close>

definition load_input_file :: "world \<Rightarrow> ml_options \<Rightarrow> nat \<Rightarrow> int option \<times> world" where
  "load_input_file w opt i =
     (case files w (input_path (filelist opt ! i)) of
        None \<Rightarrow> (Some (- ENOENT), w\<lparr> errno := ENOENT \<rparr>)
      | Some len \<Rightarrow>
          let fsize = (of_nat len :: u32);
              dsize = inp_dsize (model (priv w) ! i)
          in if (ucast fsize :: u64) \<noteq> dsize then (Some (- EINVAL), w)
             else if min (unat dsize) len \<noteq> unat dsize then (Some (- errno w), w)
             else (None, w))"

text \<open>The label \<open>error\<close> of \<open>ml_inference_iomem_setup\<close>.\<close>

definition iomem_setup_error ::
  "(string \<times> rte_memzone) option \<Rightarrow> int \<Rightarrow> nat \<Rightarrow> world \<Rightarrow> fault + (int \<times> world)" where
  "iomem_setup_error mz ret i w =
     (let w1 = (case mz of None \<Rightarrow> w | Some (z, _) \<Rightarrow> rte_memzone_free z w)
      in case io_pool (model (priv w1) ! i) of
           None \<Rightarrow> Inr (ret, w1)
         | Some mp \<Rightarrow>
             (case rte_mempool_free mp w1 of
                Inl f \<Rightarrow> Inl f
              | Inr w2 \<Rightarrow> Inr (ret, upd_model i (\<lambda>m. m\<lparr> io_pool := None \<rparr>) w2)))"

text \<open>
  The creation of the pool of quantized input and output buffers: the 32-bit \<open>buff_size\<close>,
  the 64-bit \<open>nb_buffers\<close> passed as the \<open>unsigned\<close> element count, and the call of
  \<open>rte_mempool_create\<close> with the callback \<open>ml_request_initialize\<close>.
\<close>

definition buff_size :: "build_config \<Rightarrow> world \<Rightarrow> nat \<Rightarrow> nat" where
  "buff_size cfg w i =
     (let m = model (priv w) ! i; al = min_align_size (cmn_dev_info (priv w))
      in unat (ucast (RTE_ALIGN_CEIL (sizeof_ml_request cfg) al
                      + RTE_ALIGN_CEIL (inp_qsize m) al
                      + RTE_ALIGN_CEIL (out_qsize m) al) :: u32))"

definition nb_buffers :: "build_config \<Rightarrow> ml_options \<Rightarrow> nat" where
  "nb_buffers cfg opt =
     unat (ucast (min (ucast (ML_TEST_MAX_POOL_SIZE cfg) :: u64) (repetitions opt)) :: u32)"

definition create_io_pool ::
  "build_config \<Rightarrow> world \<Rightarrow> ml_options \<Rightarrow> u16 \<Rightarrow> string option \<times> world" where
  "create_io_pool cfg w opt fd =
     (let i = unat fd;
          w1 = w\<lparr> priv := (priv w)\<lparr> t_fid := fd \<rparr> \<rparr>;
          (mp, w2) = rte_mempool_create (mp_name fd) (nb_buffers cfg opt) (buff_size cfg w i)
                       (ml_request_initialize cfg) w1
      in (mp, upd_model i (\<lambda>m. m\<lparr> io_pool := mp \<rparr>) w2))"

text \<open>
  \<open>ml_inference_iomem_setup\<close>, block by block: the size queries, the memzone for the user
  data, the input file, the pool. \<open>mz\<close> is the local variable of that name.
\<close>

definition iomem_setup_pool ::
  "build_config \<Rightarrow> world \<Rightarrow> ml_options \<Rightarrow> u16 \<Rightarrow> (string \<times> rte_memzone) option
     \<Rightarrow> fault + (int \<times> world)" where
  "iomem_setup_pool cfg w opt fd mz =
     (let (mp, w1) = create_io_pool cfg w opt fd
      in if mp = None then iomem_setup_error mz (- ENOMEM) (unat fd) w1
         else Inr (0, w1))"

definition iomem_setup_file ::
  "build_config \<Rightarrow> world \<Rightarrow> ml_options \<Rightarrow> u16 \<Rightarrow> (string \<times> rte_memzone) option
     \<Rightarrow> fault + (int \<times> world)" where
  "iomem_setup_file cfg w opt fd mz =
     (let (failed, w1) = load_input_file w opt (unat fd)
      in case failed of
           Some ret \<Rightarrow> iomem_setup_error mz ret (unat fd) w1
         | None \<Rightarrow> iomem_setup_pool cfg w1 opt fd mz)"

definition iomem_setup_memzone ::
  "build_config \<Rightarrow> world \<Rightarrow> ml_options \<Rightarrow> u16 \<Rightarrow> fault + (int \<times> world)" where
  "iomem_setup_memzone cfg w opt fd =
     (let i = unat fd;
          m = model (priv w) ! i;
          mz_size = (ucast (inp_dsize m + out_dsize m) :: u32);
          (mz, w1) = rte_memzone_reserve (mz_name fd) (unat mz_size) w
      in case mz of
           None \<Rightarrow> iomem_setup_error None (- ENOMEM) i w1
         | Some (z, zone) \<Rightarrow>
             iomem_setup_file cfg
               (upd_model i (\<lambda>m. m\<lparr> model_input := Some (mz_addr zone),
                  model_output := Some (mz_addr zone + unat (inp_dsize m)) \<rparr>) w1)
               opt fd mz)"

definition ml_inference_iomem_setup ::
  "build_config \<Rightarrow> world \<Rightarrow> ml_options \<Rightarrow> u16 \<Rightarrow> fault + (int \<times> world)" where
  "ml_inference_iomem_setup cfg w opt fd =
     (if length (model (priv w)) \<le> unat fd \<or> length (filelist opt) \<le> unat fd then Inl Fault
      else
        let (ret, w1) = get_io_sizes w (unat fd)
        in if ret \<noteq> 0 then Inr (ret, w1)
           else iomem_setup_memzone cfg w1 opt fd)"

definition ml_inference_iomem_destroy :: "world \<Rightarrow> u16 \<Rightarrow> fault + world" where
  "ml_inference_iomem_destroy w fd =
     (let w1 = (case rte_memzone_lookup (mz_name fd) w of
                  None \<Rightarrow> w
                | Some mz \<Rightarrow> rte_memzone_free mz w)
      in case rte_mempool_lookup (mp_name fd) w1 of
           None \<Rightarrow> Inr w1
         | Some mp \<Rightarrow> rte_mempool_free mp w1)"

section \<open>The operation pool: \<open>ml_inference_mem_setup\<close> and \<open>ml_inference_mem_destroy\<close>\<close>

text \<open>
  Modelled from the spec: \<open>rte_ml_op_pool_create\<close> is defined outside the source. It
  constructs a pool of the given number of operation descriptors, which it does not
  initialise.
\<close>

definition rte_ml_op_pool_create ::
  "build_config \<Rightarrow> string \<Rightarrow> nat \<Rightarrow> world \<Rightarrow> string option \<times> world" where
  "rte_ml_op_pool_create cfg name nb_elts w =
     rte_mempool_create name nb_elts (sizeof_rte_ml_op cfg) (\<lambda>obj w'. w') w"

definition ml_inference_mem_setup :: "build_config \<Rightarrow> world \<Rightarrow> ml_options \<Rightarrow> int \<times> world" where
  "ml_inference_mem_setup cfg w opt =
     (let (mp, w1) = rte_ml_op_pool_create cfg ''ml_test_op_pool''
                       (unat (ML_TEST_MAX_POOL_SIZE cfg)) w;
          w2 = w1\<lparr> priv := (priv w1)\<lparr> op_pool := mp \<rparr> \<rparr>
      in if mp = None then (- ENOMEM, w2) else (0, w2))"

definition ml_inference_mem_destroy :: "world \<Rightarrow> fault + world" where
  "ml_inference_mem_destroy w =
     (case op_pool (priv w) of
        None \<Rightarrow> Inr w
      | Some mp \<Rightarrow> rte_mempool_free mp w)"

section \<open>The device queue\<close>

text \<open>
  Modelled from the spec: \<open>rte_ml_enqueue_burst\<close> and \<open>rte_ml_dequeue_burst\<close> with a burst
  of one operation on queue pair 0. A submission is accepted (1) while a descriptor is
  free and refused (0) otherwise. What a poll returns is the device's choice \<open>poll\<close>:
  nothing, or the operation at a position of the in-flight list with its completion status;
  completions need not come in submission order.
\<close>

definition rte_ml_enqueue_burst :: "addr \<Rightarrow> world \<Rightarrow> nat \<times> world" where
  "rte_ml_enqueue_burst p w =
     (let d = dev w in
      if length (inflight d) < nb_desc d
      then (1, w\<lparr> dev := d\<lparr> inflight := inflight d @ [p],
                              enqueued_count := enqueued_count d + 1 \<rparr> \<rparr>)
      else (0, w))"

definition rte_ml_dequeue_burst ::
  "(nat \<times> rte_ml_op_status) option \<Rightarrow> world \<Rightarrow> addr option \<times> world" where
  "rte_ml_dequeue_burst poll w =
     (case poll of
        None \<Rightarrow> (None, w)
      | Some (k, st) \<Rightarrow>
          let d = dev w in
          if k < length (inflight d)
          then (let p = inflight d ! k in
                (Some p,
                 w\<lparr> dev := d\<lparr> inflight := take k (inflight d) @ drop (Suc k) (inflight d),
                                dequeued_count := dequeued_count d + 1 \<rparr>,
                    ops := (ops w)(p := (ops w p)\<lparr> status := st \<rparr>) \<rparr>))
          else (None, w))"

section \<open>The enqueue worker \<open>ml_enqueue_single\<close>\<close>

text \<open>
  The worker runs concurrently with the dequeue worker, so it is a machine that takes one
  step per call of a pool or of the device: the program counter is the label the thread
  stands at, and a failed call leaves it at the label (the \<open>goto\<close> back to it).
\<close>

datatype enq_pc = ENQ_ENTRY | ENQ_NEXT_MODEL | ENQ_RETRY | ENQ_ENQUEUE_REQ | ENQ_RETURN

record enq_thread =
  e_pc :: enq_pc
  e_lcore :: nat
  e_fid :: u16
  e_model_enq :: u64
  e_op :: addr
  e_req :: addr

definition enq_start :: "nat \<Rightarrow> enq_thread" where
  "enq_start lcore_id = \<lparr> e_pc = ENQ_ENTRY, e_lcore = lcore_id, e_fid = 0, e_model_enq = 0,
     e_op = 0, e_req = 0 \<rparr>"

text \<open>The assignments between the label \<open>retry\<close> and the label \<open>enqueue_req\<close>.\<close>

definition populate_op :: "u16 \<Rightarrow> addr \<Rightarrow> addr \<Rightarrow> world \<Rightarrow> world" where
  "populate_op fd p q w =
     (let ti = priv w; m = model ti ! unat fd; rq = reqs w q
      in w\<lparr> ops := (ops w)(p := (ops w p)\<lparr> op_model_id := model_id m,
                  nb_batches := batch_size m, op_mempool := op_pool ti,
                  op_input := \<lparr> seg_addr = req_input rq, seg_length = ucast (inp_qsize m),
                                seg_next = None \<rparr>,
                  op_output := \<lparr> seg_addr = req_output rq, seg_length = ucast (out_qsize m),
                                 seg_next = None \<rparr>,
                  user_ptr := q \<rparr>),
             reqs := (reqs w)(q := rq\<lparr> niters := niters rq + 1, fid := fd \<rparr>) \<rparr>)"

definition enq_step :: "enq_thread \<Rightarrow> world \<Rightarrow> fault + (enq_thread \<times> world)" where
  "enq_step th w =
     (if length (args (priv w)) \<le> e_lcore th then Inl Fault
      else
        let a = args (priv w) ! e_lcore th in
        case e_pc th of
          ENQ_ENTRY \<Rightarrow>
            if nb_reqs a = 0 then Inr (th\<lparr> e_model_enq := 0, e_pc := ENQ_RETURN \<rparr>, w)
            else Inr (th\<lparr> e_model_enq := 0, e_fid := start_fid a, e_pc := ENQ_NEXT_MODEL \<rparr>, w)
        | ENQ_NEXT_MODEL \<Rightarrow>
            (case rte_mempool_get (op_pool (priv w)) w of
               Inl f \<Rightarrow> Inl f
             | Inr (None, w1) \<Rightarrow> Inr (th, w1)
             | Inr (Some p, w1) \<Rightarrow> Inr (th\<lparr> e_op := p, e_pc := ENQ_RETRY \<rparr>, w1))
        | ENQ_RETRY \<Rightarrow>
            if length (model (priv w)) \<le> unat (e_fid th) then Inl Fault
            else
              (case rte_mempool_get (io_pool (model (priv w) ! unat (e_fid th))) w of
                 Inl f \<Rightarrow> Inl f
               | Inr (None, w1) \<Rightarrow> Inr (th, w1)
               | Inr (Some q, w1) \<Rightarrow>
                   Inr (th\<lparr> e_req := q, e_pc := ENQ_ENQUEUE_REQ \<rparr>,
                        populate_op (e_fid th) (e_op th) q w1))
        | ENQ_ENQUEUE_REQ \<Rightarrow>
            (let (burst_enq, w1) = rte_ml_enqueue_burst (e_op th) w in
             if burst_enq = 0 then Inr (th, w1)
             else if e_fid th + 1 \<le> end_fid a
               then Inr (th\<lparr> e_fid := e_fid th + 1, e_pc := ENQ_NEXT_MODEL \<rparr>, w1)
             else if e_model_enq th + 1 < nb_reqs a
               then Inr (th\<lparr> e_fid := start_fid a, e_model_enq := e_model_enq th + 1,
                              e_pc := ENQ_NEXT_MODEL \<rparr>, w1)
             else Inr (th\<lparr> e_fid := e_fid th + 1, e_model_enq := e_model_enq th + 1,
                            e_pc := ENQ_RETURN \<rparr>, w1))
        | ENQ_RETURN \<Rightarrow> Inr (th, w))"

section \<open>The dequeue worker \<open>ml_dequeue_single\<close>\<close>

datatype deq_pc = DEQ_ENTRY | DEQ_DEQUEUE_REQ | DEQ_RETURN

record deq_thread =
  d_pc :: deq_pc
  d_lcore :: nat
  d_total_deq :: u64
  d_nb_filelist :: u8

definition deq_start :: "nat \<Rightarrow> deq_thread" where
  "deq_start lcore_id = \<lparr> d_pc = DEQ_ENTRY, d_lcore = lcore_id, d_total_deq = 0,
     d_nb_filelist = 0 \<rparr>"

text \<open>
  The body of \<open>if (burst_deq == 1)\<close> for the operation \<open>p\<close> that the device handed back: the
  error counter of the lcore on an error status, then the two \<open>rte_mempool_put\<close>.
\<close>

definition deq_complete :: "nat \<Rightarrow> addr \<Rightarrow> world \<Rightarrow> fault + world" where
  "deq_complete lcore_id p w =
     (let w1 = (if status (ops w p) = RTE_ML_OP_STATUS_ERROR
                then w\<lparr> priv := (priv w)\<lparr> error_count := (error_count (priv w))
                           [lcore_id := error_count (priv w) ! lcore_id + 1] \<rparr> \<rparr>
                else w);
          req = user_ptr (ops w1 p);
          f = unat (fid (reqs w1 req))
      in if length (model (priv w1)) \<le> f then Inl Fault
         else
           case rte_mempool_put (io_pool (model (priv w1) ! f)) req w1 of
             Inl e \<Rightarrow> Inl e
           | Inr w2 \<Rightarrow> rte_mempool_put (op_pool (priv w2)) p w2)"

definition deq_step ::
  "(nat \<times> rte_ml_op_status) option \<Rightarrow> deq_thread \<Rightarrow> world \<Rightarrow> fault + (deq_thread \<times> world)" where
  "deq_step poll th w =
     (if length (args (priv w)) \<le> d_lcore th \<or> length (error_count (priv w)) \<le> d_lcore th
      then Inl Fault
      else
        let a = args (priv w) ! d_lcore th in
        case d_pc th of
          DEQ_ENTRY \<Rightarrow>
            (let th1 = th\<lparr> d_nb_filelist := ucast (end_fid a - start_fid a + 1) \<rparr> in
             if nb_reqs a = 0 then Inr (th1\<lparr> d_pc := DEQ_RETURN \<rparr>, w)
             else Inr (th1\<lparr> d_pc := DEQ_DEQUEUE_REQ \<rparr>, w))
        | DEQ_DEQUEUE_REQ \<Rightarrow>
            (let (burst, w1) = rte_ml_dequeue_burst poll w in
             case (case burst of
                     None \<Rightarrow> Inr (th, w1)
                   | Some p \<Rightarrow>
                       (case deq_complete (d_lcore th) p w1 of
                          Inl e \<Rightarrow> Inl e
                        | Inr w2 \<Rightarrow> Inr (th\<lparr> d_total_deq := d_total_deq th + 1 \<rparr>, w2))) of
               Inl e \<Rightarrow> Inl e
             | Inr (th1, w2) \<Rightarrow>
                 if d_total_deq th1 < nb_reqs a * ucast (d_nb_filelist th1)
                 then Inr (th1, w2)
                 else Inr (th1\<lparr> d_pc := DEQ_RETURN \<rparr>, w2))
        | DEQ_RETURN \<Rightarrow> Inr (th, w))"

section \<open>The two workers running together\<close>

text \<open>
  A schedule says which worker takes the next step and, for the dequeue worker, what the
  device answers to its poll. A fault of either worker ends the run.
\<close>

datatype action = ENQ | DEQ "(nat \<times> rte_ml_op_status) option"

type_synonym sys = "enq_thread \<times> deq_thread \<times> world"

fun sys_step :: "action \<Rightarrow> sys \<Rightarrow> fault + sys" where
  "sys_step ENQ (e, d, w) =
     (case enq_step e w of Inl f \<Rightarrow> Inl f | Inr (e', w') \<Rightarrow> Inr (e', d, w'))"
| "sys_step (DEQ poll) (e, d, w) =
     (case deq_step poll d w of Inl f \<Rightarrow> Inl f | Inr (d', w') \<Rightarrow> Inr (e, d', w'))"

fun run :: "action list \<Rightarrow> sys \<Rightarrow> fault + sys" where
  "run [] s = Inr s"
| "run (a # as) s = (case sys_step a s of Inl f \<Rightarrow> Inl f | Inr s' \<Rightarrow> run as s')"

section \<open>The verdict: \<open>ml_request_finish\<close> and \<open>ml_inference_result\<close>\<close>

text \<open>
  The callback \<open>ml_request_finish\<close> on one object of a pool. The dequantized bytes it writes
  to the output staging area of the model are not represented.
\<close>

definition ml_request_finish :: "addr \<Rightarrow> world \<Rightarrow> fault + world" where
  "ml_request_finish obj w =
     (let req = reqs w obj in
      if niters req = 0 then Inr w
      else if length (model (priv w)) \<le> unat (fid req) then Inl Fault
      else Inr (w\<lparr> priv := (priv w)\<lparr> nb_used := nb_used (priv w) + 1 \<rparr> \<rparr>))"

fun obj_iter :: "(addr \<Rightarrow> world \<Rightarrow> fault + world) \<Rightarrow> addr list \<Rightarrow> world \<Rightarrow> fault + world" where
  "obj_iter cb [] w = Inr w"
| "obj_iter cb (obj # rest) w =
     (case cb obj w of Inl f \<Rightarrow> Inl f | Inr w' \<Rightarrow> obj_iter cb rest w')"

definition rte_mempool_obj_iter ::
  "string option \<Rightarrow> (addr \<Rightarrow> world \<Rightarrow> fault + world) \<Rightarrow> world \<Rightarrow> fault + world" where
  "rte_mempool_obj_iter mp cb w =
     (case mp of
        None \<Rightarrow> Inl Fault
      | Some name \<Rightarrow>
          (case mempools w name of
             None \<Rightarrow> Inl Fault
           | Some p \<Rightarrow> obj_iter cb (mp_elts p) w))"

definition ml_inference_result :: "world \<Rightarrow> u16 \<Rightarrow> fault + (ml_test_result \<times> world)" where
  "ml_inference_result w fd =
     (let errors = foldl (+) (0 :: u64) (error_count (priv w)) in
      if length (model (priv w)) \<le> unat fd then Inl Fault
      else
        case rte_mempool_obj_iter (io_pool (model (priv w) ! unat fd)) ml_request_finish w of
          Inl f \<Rightarrow> Inl f
        | Inr w1 \<Rightarrow>
            let res = (if 0 < nb_used (priv w1) \<and> errors = 0
                       then ML_TEST_SUCCESS else ML_TEST_FAILED)
            in Inr (res, w1\<lparr> priv := (priv w1)\<lparr> cmn_result := res \<rparr> \<rparr>))"

section \<open>Notions used to state the properties\<close>

definition assigned :: "ml_options \<Rightarrow> u16 \<Rightarrow> u16 \<Rightarrow> ml_core_args" where
  "assigned opt sfid efid = \<lparr> nb_reqs = repetitions opt, start_fid = sfid, end_fid = efid \<rparr>"

definition files_accessible :: "world \<Rightarrow> ml_options \<Rightarrow> bool" where
  "files_accessible w opt =
     list_all (\<lambda>f. files w (model_path f) \<noteq> None \<and> files w (input_path f) \<noteq> None)
       (filelist opt)"

text \<open>The objects a pool has available, and the objects of a pool that were dispatched.\<close>

definition avail_of :: "world \<Rightarrow> string \<Rightarrow> addr list" where
  "avail_of w name = (case mempools w name of None \<Rightarrow> [] | Some p \<Rightarrow> mp_avail p)"

definition used_objs :: "world \<Rightarrow> addr list \<Rightarrow> addr list" where
  "used_objs w objs = filter (\<lambda>a. niters (reqs w a) \<noteq> 0) objs"

text \<open>
  The pool behind \<open>t->model[fid].io_pool\<close>: none when the index is out of range, the
  pointer is \<open>NULL\<close> or the pool was freed.
\<close>

definition pool_of :: "world \<Rightarrow> u16 \<Rightarrow> rte_mempool option" where
  "pool_of w fd =
     (if length (model (priv w)) \<le> unat fd then None
      else case io_pool (model (priv w) ! unat fd) of
             None \<Rightarrow> None
           | Some name \<Rightarrow> mempools w name)"

text \<open>Adding to the counter \<open>nb_used\<close>, and storing a verdict.\<close>

definition add_used :: "u64 \<Rightarrow> world \<Rightarrow> world" where
  "add_used n w = w\<lparr> priv := (priv w)\<lparr> nb_used := nb_used (priv w) + n \<rparr> \<rparr>"

definition set_result :: "ml_test_result \<Rightarrow> world \<Rightarrow> world" where
  "set_result res w = w\<lparr> priv := (priv w)\<lparr> cmn_result := res \<rparr> \<rparr>"

text \<open>
  No object of the pool makes \<open>ml_request_finish\<close> read a model beyond the array: every
  dispatched object carries the \<open>fid\<close> of an existing model.
\<close>

definition fids_in_range :: "world \<Rightarrow> addr list \<Rightarrow> bool" where
  "fids_in_range w objs =
     list_all (\<lambda>a. unat (fid (reqs w a)) < length (model (priv w))) (used_objs w objs)"

text \<open>
  The number of operations of an assignment, \<open>r * (e - s + 1)\<close>, as a natural number, and
  what each worker has achieved when it stands at a label: \<open>sub\<close> operations submitted,
  \<open>obs\<close> completions observed.
\<close>

definition total_ops :: "ml_core_args \<Rightarrow> nat" where
  "total_ops a = unat (nb_reqs a) * (unat (end_fid a) - unat (start_fid a) + 1)"

definition enq_inv :: "ml_core_args \<Rightarrow> nat \<Rightarrow> enq_thread \<Rightarrow> bool" where
  "enq_inv a sub th =
     (case e_pc th of
        ENQ_ENTRY \<Rightarrow> sub = 0
      | ENQ_RETURN \<Rightarrow> sub = total_ops a
      | _ \<Rightarrow> start_fid a \<le> e_fid th \<and> e_fid th \<le> end_fid a \<and> e_model_enq th < nb_reqs a
             \<and> sub = unat (e_model_enq th) * (unat (end_fid a) - unat (start_fid a) + 1)
                      + (unat (e_fid th) - unat (start_fid a)))"

definition deq_inv :: "ml_core_args \<Rightarrow> nat \<Rightarrow> deq_thread \<Rightarrow> bool" where
  "deq_inv a obs th =
     (unat (d_total_deq th) = obs \<and>
      (case d_pc th of
         DEQ_ENTRY \<Rightarrow> obs = 0
       | DEQ_DEQUEUE_REQ \<Rightarrow>
           unat (d_nb_filelist th) = unat (end_fid a) - unat (start_fid a) + 1
           \<and> obs < total_ops a
       | DEQ_RETURN \<Rightarrow> obs = total_ops a))"

text \<open>
  A state in which the two workers can make progress together: the operation pool and the
  pool of every model of the range have an object available, the pools of the models are
  not the operation pool, nothing is in flight and the queue has a descriptor.
\<close>

definition pools_ready :: "ml_core_args \<Rightarrow> world \<Rightarrow> bool" where
  "pools_ready a w =
     (case op_pool (priv w) of
        None \<Rightarrow> False
      | Some nop \<Rightarrow>
          avail_of w nop \<noteq> []
          \<and> list_all (\<lambda>i. i < length (model (priv w))
                        \<and> (case io_pool (model (priv w) ! i) of
                             None \<Rightarrow> False
                           | Some nio \<Rightarrow> nio \<noteq> nop \<and> avail_of w nio \<noteq> []))
               [unat (start_fid a) ..< Suc (unat (end_fid a))]
          \<and> inflight (dev w) = [] \<and> 0 < nb_desc (dev w))"

section \<open>A concrete configuration\<close>

text \<open>
  Two models, two repetitions, three lcores (the main lcore 0 and the workers 1 and 2), a
  device with four descriptors, and input files of the declared four bytes. \<open>demo_built\<close> is
  the state with the operation pool and the buffers of both models in place, and
  \<open>demo_launched\<close> the state with the model range from 0 to 0 assigned to both workers.
  \<open>demo_done\<close> is the state after both workers ran to their return under the schedule
  \<open>demo_sched\<close>: both operations went through the first buffer of model 0.
  \<open>demo_inflight\<close> is the state in between in which the first operation is with the device,
  and \<open>demo_deq\<close> the dequeue worker at its label \<open>dequeue_req\<close>.
\<close>

definition demo_opt :: ml_options where
  "demo_opt = \<lparr> dev_id = 0, socket_id = 0,
     filelist = [\<lparr> model_path = ''m0.bin'', input_path = ''i0.bin'', output_path = ''o0.bin'' \<rparr>,
                 \<lparr> model_path = ''m1.bin'', input_path = ''i1.bin'', output_path = ''o1.bin'' \<rparr>],
     repetitions = 2 \<rparr>"

definition demo_cfg :: build_config where
  "demo_cfg = \<lparr> ML_TEST_MAX_POOL_SIZE = 4, sizeof_ml_request = 32, sizeof_rte_ml_op = 64 \<rparr>"

definition demo_info :: rte_ml_dev_info where
  "demo_info = \<lparr> max_models = 4, max_desc = 4, min_align_size = 8 \<rparr>"

definition demo_dev :: ml_dev where
  "demo_dev = \<lparr> inflight = [], nb_desc = 4, enqueued_count = 0, dequeued_count = 0,
     input_size_get = (\<lambda>mid batch. (0, 8, 4)), output_size_get = (\<lambda>mid batch. (0, 8, 4)) \<rparr>"

definition demo_priv :: test_inference where
  "demo_priv = (case snd (test_inference_setup 4 2 True 0 demo_info demo_opt) of
                  Some ti \<Rightarrow> ti | None \<Rightarrow> zero_test_inference 4 2)"

definition zero_req :: ml_request where
  "zero_req = \<lparr> req_input = 0, req_output = 0, fid = 0, niters = 0 \<rparr>"

definition zero_op :: rte_ml_op where
  "zero_op = \<lparr> op_model_id = 0, nb_batches = 0, op_mempool = None,
     op_input = \<lparr> seg_addr = 0, seg_length = 0, seg_next = None \<rparr>,
     op_output = \<lparr> seg_addr = 0, seg_length = 0, seg_next = None \<rparr>,
     user_ptr = 0, status = RTE_ML_OP_STATUS_SUCCESS \<rparr>"

definition demo_world :: world where
  "demo_world = \<lparr> priv = demo_priv, memzones = Map.empty, mempools = Map.empty,
     reqs = (\<lambda>a. zero_req), ops = (\<lambda>a. zero_op), next_addr = 64, mem_free = 1024,
     files = [''m0.bin'' \<mapsto> 100, ''i0.bin'' \<mapsto> 4, ''m1.bin'' \<mapsto> 100, ''i1.bin'' \<mapsto> 4],
     errno = 0, lcores = [0, 1, 2], main_lcore = 0, dev = demo_dev \<rparr>"

definition demo_model :: "addr \<Rightarrow> string \<Rightarrow> ml_model" where
  "demo_model a pool = \<lparr> model_id = 0, batch_size = 0, inp_qsize = 8, inp_dsize = 4,
     out_qsize = 8, out_dsize = 4, model_input = Some a, model_output = Some (a + 4),
     io_pool = Some pool, mstate = MODEL_INITIAL \<rparr>"

definition demo_req :: "addr \<Rightarrow> ml_request" where
  "demo_req a = \<lparr> req_input = a + 32, req_output = a + 40, fid = 0, niters = 0 \<rparr>"

definition demo_built :: world where
  "demo_built = \<lparr>
     priv = demo_priv\<lparr> op_pool := Some ''ml_test_op_pool'', t_fid := 1,
              model := [demo_model 320 ''ml_io_pool_0'', demo_model 424 ''ml_io_pool_1''] \<rparr>,
     memzones = [''ml_user_data_0'' \<mapsto> \<lparr> mz_addr = 320, mz_len = 8 \<rparr>,
                 ''ml_user_data_1'' \<mapsto> \<lparr> mz_addr = 424, mz_len = 8 \<rparr>],
     mempools = [''ml_test_op_pool'' \<mapsto> \<lparr> mp_size = 4, mp_elt_size = 64,
                    mp_elts = [64, 128, 192, 256], mp_avail = [64, 128, 192, 256] \<rparr>,
                 ''ml_io_pool_0'' \<mapsto> \<lparr> mp_size = 2, mp_elt_size = 48,
                    mp_elts = [328, 376], mp_avail = [328, 376] \<rparr>,
                 ''ml_io_pool_1'' \<mapsto> \<lparr> mp_size = 2, mp_elt_size = 48,
                    mp_elts = [432, 480], mp_avail = [432, 480] \<rparr>],
     reqs = (\<lambda>a. zero_req)(328 := demo_req 328, 376 := demo_req 376,
               432 := demo_req 432, 480 := demo_req 480),
     ops = (\<lambda>a. zero_op), next_addr = 528, mem_free = 560,
     files = [''m0.bin'' \<mapsto> 100, ''i0.bin'' \<mapsto> 4, ''m1.bin'' \<mapsto> 100, ''i1.bin'' \<mapsto> 4],
     errno = 0, lcores = [0, 1, 2], main_lcore = 0, dev = demo_dev \<rparr>"

definition demo_launched :: world where
  "demo_launched = demo_built\<lparr> priv := (priv demo_built)\<lparr> args :=
     [zero_args, \<lparr> nb_reqs = 2, start_fid = 0, end_fid = 0 \<rparr>,
      \<lparr> nb_reqs = 2, start_fid = 0, end_fid = 0 \<rparr>, zero_args] \<rparr> \<rparr>"

definition demo_sched :: "action list" where
  "demo_sched = [ENQ, DEQ None,
     ENQ, ENQ, ENQ, DEQ (Some (0, RTE_ML_OP_STATUS_SUCCESS)),
     ENQ, ENQ, DEQ None, ENQ, DEQ (Some (0, RTE_ML_OP_STATUS_SUCCESS))]"

definition demo_done :: world where
  "demo_done = demo_launched\<lparr>
     reqs := (reqs demo_launched)(328 := (demo_req 328)\<lparr> niters := 2 \<rparr>),
     ops := (ops demo_launched)(64 := \<lparr> op_model_id = 0, nb_batches = 0,
        op_mempool = Some ''ml_test_op_pool'',
        op_input = \<lparr> seg_addr = 360, seg_length = 8, seg_next = None \<rparr>,
        op_output = \<lparr> seg_addr = 368, seg_length = 8, seg_next = None \<rparr>,
        user_ptr = 328, status = RTE_ML_OP_STATUS_SUCCESS \<rparr>),
     dev := (dev demo_launched)\<lparr> enqueued_count := 2, dequeued_count := 2 \<rparr> \<rparr>"

definition demo_inflight :: world where
  "demo_inflight = demo_launched\<lparr>
     mempools := [''ml_test_op_pool'' \<mapsto> \<lparr> mp_size = 4, mp_elt_size = 64,
                    mp_elts = [64, 128, 192, 256], mp_avail = [128, 192, 256] \<rparr>,
                 ''ml_io_pool_0'' \<mapsto> \<lparr> mp_size = 2, mp_elt_size = 48,
                    mp_elts = [328, 376], mp_avail = [376] \<rparr>,
                 ''ml_io_pool_1'' \<mapsto> \<lparr> mp_size = 2, mp_elt_size = 48,
                    mp_elts = [432, 480], mp_avail = [432, 480] \<rparr>],
     reqs := (reqs demo_launched)(328 := (demo_req 328)\<lparr> niters := 1 \<rparr>),
     ops := (ops demo_launched)(64 := \<lparr> op_model_id = 0, nb_batches = 0,
        op_mempool = Some ''ml_test_op_pool'',
        op_input = \<lparr> seg_addr = 360, seg_length = 8, seg_next = None \<rparr>,
        op_output = \<lparr> seg_addr = 368, seg_length = 8, seg_next = None \<rparr>,
        user_ptr = 328, status = RTE_ML_OP_STATUS_SUCCESS \<rparr>),
     dev := (dev demo_launched)\<lparr> inflight := [64], enqueued_count := 1 \<rparr> \<rparr>"

definition demo_deq :: deq_thread where
  "demo_deq = \<lparr> d_pc = DEQ_DEQUEUE_REQ, d_lcore = 2, d_total_deq = 0, d_nb_filelist = 1 \<rparr>"



text \<open>
  The state \<open>demo_built\<close> with the two worker lcores assigned both models and two
  repetitions, a schedule for it in which the device completes two operations out of
  submission order, one of them with an error status, and the same state with
  \<open>2 ^ 63\<close> repetitions.
\<close>

definition demo_range_args :: ml_core_args where
  "demo_range_args = \<lparr> nb_reqs = 2, start_fid = 0, end_fid = 1 \<rparr>"

definition demo_range :: world where
  "demo_range = demo_built\<lparr> priv := (priv demo_built)\<lparr> args :=
     [zero_args, demo_range_args, demo_range_args, zero_args] \<rparr> \<rparr>"

definition demo_range_sched :: "action list" where
  "demo_range_sched = [ENQ, DEQ None,
     ENQ, ENQ, ENQ, DEQ (Some (0, RTE_ML_OP_STATUS_SUCCESS)),
     ENQ, ENQ, DEQ None, ENQ, ENQ, ENQ, ENQ,
     DEQ (Some (1, RTE_ML_OP_STATUS_ERROR)), DEQ (Some (0, RTE_ML_OP_STATUS_SUCCESS)),
     ENQ, ENQ, ENQ, ENQ, DEQ (Some (0, RTE_ML_OP_STATUS_SUCCESS)), ENQ]"

definition demo_wrap_args :: ml_core_args where
  "demo_wrap_args = \<lparr> nb_reqs = 9223372036854775808, start_fid = 0, end_fid = 1 \<rparr>"

definition demo_wrap :: world where
  "demo_wrap = demo_built\<lparr> priv := (priv demo_built)\<lparr> args :=
     [zero_args, demo_wrap_args, demo_wrap_args, zero_args] \<rparr> \<rparr>"

section \<open>Properties of the launcher and of option validation\<close>

lemma launch_loop_break: "launch_loop opt sfid efid ls 2 ti launched = (ti, launched)"
  by (cases ls) simp_all

lemma worker_lcores_sorted: "sorted_wrt (<) (worker_lcores w)"
  unfolding worker_lcores_def by (rule sorted_wrt_filter) (simp add: sorted_wrt_upt)

lemma worker_lcores_range:
  "i \<in> set (worker_lcores w) \<Longrightarrow> i < length (args (priv w)) \<and> i \<noteq> main_lcore w"
  by (auto simp: worker_lcores_def)

lemma demo_workers: "worker_lcores demo_world = [1, 2]"
  by code_simp

lemma check_files_accessible:
  "list_all (\<lambda>f. fs (model_path f) \<noteq> None \<and> fs (input_path f) \<noteq> None) fl
     \<Longrightarrow> check_files fs fl = 0"
  by (induction fl) auto

lemma launched_args:
  assumes "ml_inference_launch_cores w opt sfid efid = (r, w', launched)"
      and "(f, l) \<in> set launched"
  shows "l < length (args (priv w')) \<and> args (priv w') ! l = assigned opt sfid efid"
proof (cases "worker_lcores w")
  case Nil
  with assms show ?thesis
    by (simp add: ml_inference_launch_cores_def)
next
  case (Cons l0 ls)
  note c0 = Cons
  have r0: "l0 < length (args (priv w))"
    using worker_lcores_range [of l0 w] c0 by simp
  show ?thesis
  proof (cases ls)
    case Nil
    with assms c0 r0 show ?thesis
      by (auto simp: ml_inference_launch_cores_def assigned_def Let_def)
  next
    case (Cons l1 rest)
    have r1: "l1 < length (args (priv w))"
      using worker_lcores_range [of l1 w] c0 Cons by simp
    from assms c0 Cons r0 r1 show ?thesis
      by (auto simp: ml_inference_launch_cores_def assigned_def Let_def launch_loop_break
          nth_list_update)
  qed
qed

lemma enq_entry_nonzero:
  assumes "l < length (args (priv w))" and "nb_reqs (args (priv w) ! l) \<noteq> 0"
  shows "\<exists>th. enq_step (enq_start l) w = Inr (th, w) \<and> e_pc th = ENQ_NEXT_MODEL"
  using assms by (simp add: enq_step_def enq_start_def Let_def)

lemma deq_entry_nonzero:
  assumes "deq_step poll (deq_start l) w = Inr (th, w')"
      and "nb_reqs (args (priv w) ! l) \<noteq> 0"
  shows "d_pc th = DEQ_DEQUEUE_REQ \<and> w' = w"
  using assms by (auto simp: deq_step_def deq_start_def Let_def split: if_splits)

lemma worker_lcores_distinct: "distinct (worker_lcores w)"
  by (simp add: worker_lcores_def)

lemma worker_lcores_set:
  assumes "\<forall>l \<in> set (lcores w). l < length (args (priv w))"
  shows "set (worker_lcores w) = set (lcores w) - {main_lcore w}"
  using assms by (auto simp: worker_lcores_def)

lemma validated_two_workers:
  assumes ok: "test_inference_opt_check common_ret w opt = 0"
      and d: "distinct (lcores w)"
      and r: "\<forall>l \<in> set (lcores w). l < length (args (priv w))"
  shows "\<exists>l0 l1 rest. worker_lcores w = l0 # l1 # rest"
proof -
  from ok have three: "3 \<le> length (lcores w)"
    by (simp add: test_inference_opt_check_def rte_lcore_count_def EINVAL_def split: if_splits)
  have "length (worker_lcores w) = card (set (worker_lcores w))"
    using worker_lcores_distinct [of w] by (simp add: distinct_card)
  also have "\<dots> = card (set (lcores w) - {main_lcore w})"
    using r by (simp add: worker_lcores_set)
  also have "\<dots> \<ge> card (set (lcores w)) - 1"
    by (simp add: card_Diff_singleton_if)
  finally have "length (lcores w) - 1 \<le> length (worker_lcores w)"
    using d by (simp add: distinct_card)
  with three have two: "2 \<le> length (worker_lcores w)"
    by simp
  then obtain l0 ls where c0: "worker_lcores w = l0 # ls"
    by (cases "worker_lcores w") auto
  with two obtain l1 rest where "ls = l1 # rest"
    by (cases ls) auto
  with c0 show ?thesis
    by simp
qed

text \<open>
  C7. Option validation admits only configurations with at least three lcores, so for a
  well-formed lcore configuration at least two worker lcores are available when the
  launcher runs (\<open>validated_two_workers\<close>). Whenever two or more worker lcores are
  available, however many, \<open>ml_inference_launch_cores\<close> returns 0, writes the assignment
  (the configured repetition count and the whole range from \<open>start_fid\<close> to \<open>end_fid\<close>) for
  the first two worker lcores only, and launches exactly two threads: the function
  \<open>t->enqueue\<close> on the first worker lcore and \<open>t->dequeue\<close> on the second. Every further
  worker lcore keeps the assignment it had and gets no launch.
\<close>

theorem launch_cores_two_workers:
  assumes "worker_lcores w = l0 # l1 # rest"
  shows "ml_inference_launch_cores w opt sfid efid =
           (0, w\<lparr> priv := (priv w)\<lparr> args := (args (priv w))
                   [l0 := assigned opt sfid efid, l1 := assigned opt sfid efid] \<rparr> \<rparr>,
            [(enqueue (priv w), l0), (dequeue (priv w), l1)])
         \<and> l0 < l1 \<and> l1 < length (args (priv w))
         \<and> (\<forall>l \<in> set rest. l0 < l \<and> l1 < l
               \<and> (args (priv w))[l0 := assigned opt sfid efid, l1 := assigned opt sfid efid] ! l
                   = args (priv w) ! l)"
proof -
  have s: "sorted_wrt (<) (l0 # l1 # rest)"
    using worker_lcores_sorted [of w] assms by simp
  then have lt: "l0 < l1"
    by simp
  have r1: "l1 < length (args (priv w))"
    using worker_lcores_range [of l1 w] assms by simp
  have idle: "\<forall>l \<in> set rest. l0 < l \<and> l1 < l
               \<and> (args (priv w))[l0 := assigned opt sfid efid, l1 := assigned opt sfid efid] ! l
                   = args (priv w) ! l"
    using s by auto
  have eq: "ml_inference_launch_cores w opt sfid efid =
           (0, w\<lparr> priv := (priv w)\<lparr> args := (args (priv w))
                   [l0 := assigned opt sfid efid, l1 := assigned opt sfid efid] \<rparr> \<rparr>,
            [(enqueue (priv w), l0), (dequeue (priv w), l1)])"
    using assms
    by (simp add: ml_inference_launch_cores_def assigned_def Let_def launch_loop_break)
  show ?thesis
    using eq lt r1 idle by (intro conjI)
qed

lemma demo4_workers: "worker_lcores (demo_world\<lparr> lcores := [0, 1, 2, 3] \<rparr>) = [1, 2, 3]"
  by code_simp

lemma demo4_check:
  "test_inference_opt_check 0 (demo_world\<lparr> lcores := [0, 1, 2, 3] \<rparr>) demo_opt = 0"
  by code_simp

lemma demo4_args:
  "args (priv (demo_world\<lparr> lcores := [0, 1, 2, 3] \<rparr>)) = [zero_args, zero_args, zero_args, zero_args]
   \<and> enqueue (priv (demo_world\<lparr> lcores := [0, 1, 2, 3] \<rparr>)) = Some ML_ENQUEUE_SINGLE
   \<and> dequeue (priv (demo_world\<lparr> lcores := [0, 1, 2, 3] \<rparr>)) = Some ML_DEQUEUE_SINGLE"
  by code_simp

theorem launch_cores_two_workers_witness:
  "test_inference_opt_check 0 (demo_world\<lparr> lcores := [0, 1, 2, 3] \<rparr>) demo_opt = 0
   \<and> worker_lcores (demo_world\<lparr> lcores := [0, 1, 2, 3] \<rparr>) = [1, 2, 3]
   \<and> snd (snd (ml_inference_launch_cores (demo_world\<lparr> lcores := [0, 1, 2, 3] \<rparr>) demo_opt 0 0))
       = [(Some ML_ENQUEUE_SINGLE, 1), (Some ML_DEQUEUE_SINGLE, 2)]
   \<and> args (priv (fst (snd (ml_inference_launch_cores (demo_world\<lparr> lcores := [0, 1, 2, 3] \<rparr>)
         demo_opt 0 0))))
       = [zero_args, assigned demo_opt 0 0, assigned demo_opt 0 0, zero_args]"
proof -
  let ?w = "demo_world\<lparr> lcores := [0, 1, 2, 3] \<rparr>"
  have "ml_inference_launch_cores ?w demo_opt 0 0 =
           (0, ?w\<lparr> priv := (priv ?w)\<lparr> args := (args (priv ?w))
                   [1 := assigned demo_opt 0 0, 2 := assigned demo_opt 0 0] \<rparr> \<rparr>,
            [(enqueue (priv ?w), 1), (dequeue (priv ?w), 2)])"
    using launch_cores_two_workers [of ?w 1 2 "[3]" demo_opt 0 0] demo4_workers
    by simp
  then show ?thesis
    using demo4_workers demo4_check demo4_args by simp
qed

text \<open>
  C9, as amended. When the check of the common options passes and the listed files are
  accessible, \<open>test_inference_opt_check\<close> returns \<open>-EINVAL\<close> for a repetition count of 0.
  Whenever it returns 0 the repetition count is at least 1, and then every worker that the
  launcher starts finds a nonzero \<open>nb_reqs\<close>: the first step of the enqueue worker leads to
  the label \<open>next_model\<close> and the first step of the dequeue worker to the label
  \<open>dequeue_req\<close>, never to the early return.
\<close>

theorem opt_check_zero_repetitions:
  "(common_ret = 0 \<and> files_accessible w opt \<and> repetitions opt = 0 \<longrightarrow>
      test_inference_opt_check common_ret w opt = - EINVAL)
   \<and> (test_inference_opt_check common_ret w opt = 0 \<longrightarrow>
        1 \<le> unat (repetitions opt)
        \<and> (\<forall>sfid efid r w' launched f l.
              ml_inference_launch_cores w opt sfid efid = (r, w', launched)
                \<and> (f, l) \<in> set launched \<longrightarrow>
              nb_reqs (args (priv w') ! l) = repetitions opt
              \<and> (\<exists>th. enq_step (enq_start l) w' = Inr (th, w') \<and> e_pc th = ENQ_NEXT_MODEL)
              \<and> (\<forall>poll th w''. deq_step poll (deq_start l) w' = Inr (th, w'') \<longrightarrow>
                    d_pc th = DEQ_DEQUEUE_REQ)))"
proof (intro conjI impI allI)
  assume "common_ret = 0 \<and> files_accessible w opt \<and> repetitions opt = 0"
  then show "test_inference_opt_check common_ret w opt = - EINVAL"
    by (simp add: test_inference_opt_check_def files_accessible_def check_files_accessible)
next
  assume ok: "test_inference_opt_check common_ret w opt = 0"
  have nz: "repetitions opt \<noteq> 0"
  proof
    assume "repetitions opt = 0"
    with ok show False
      by (simp add: test_inference_opt_check_def EINVAL_def split: if_splits)
  qed
  then have "unat (repetitions opt) \<noteq> 0"
    by (simp add: unat_eq_0)
  then show "1 \<le> unat (repetitions opt)"
    by simp
  fix sfid efid r w' launched f l
  assume "ml_inference_launch_cores w opt sfid efid = (r, w', launched)
    \<and> (f, l) \<in> set launched"
  then have a: "l < length (args (priv w'))" "args (priv w') ! l = assigned opt sfid efid"
    using launched_args by blast+
  then have n: "nb_reqs (args (priv w') ! l) \<noteq> 0"
    using nz by (simp add: assigned_def)
  show "nb_reqs (args (priv w') ! l) = repetitions opt"
    using a by (simp add: assigned_def)
  show "\<exists>th. enq_step (enq_start l) w' = Inr (th, w') \<and> e_pc th = ENQ_NEXT_MODEL"
    using a(1) n by (rule enq_entry_nonzero)
  fix poll th w''
  assume "deq_step poll (deq_start l) w' = Inr (th, w'')"
  then show "d_pc th = DEQ_DEQUEUE_REQ"
    using n deq_entry_nonzero by blast
qed

lemma demo_check: "test_inference_opt_check 0 demo_world demo_opt = 0"
  by code_simp

theorem opt_check_zero_repetitions_witness:
  "test_inference_opt_check 0 demo_world demo_opt = 0 \<and> 1 \<le> unat (repetitions demo_opt)
   \<and> files_accessible demo_world (demo_opt\<lparr> repetitions := 0 \<rparr>)
   \<and> test_inference_opt_check 0 demo_world (demo_opt\<lparr> repetitions := 0 \<rparr>) = - EINVAL"
proof -
  have acc: "files_accessible demo_world (demo_opt\<lparr> repetitions := 0 \<rparr>)"
    by code_simp
  have z: "repetitions (demo_opt\<lparr> repetitions := 0 \<rparr>) = 0"
    by simp
  show ?thesis
    using opt_check_zero_repetitions [of 0 demo_world demo_opt]
      opt_check_zero_repetitions [of 0 demo_world "demo_opt\<lparr> repetitions := 0 \<rparr>"]
      demo_check acc z
    by blast
qed

text \<open>
  The claim C9 as stated names the accessible files as its only condition. It fails when
  the check of the common options returns another code first (here \<open>-19\<close>, \<open>-ENODEV\<close>):
  that code is returned, not \<open>-EINVAL\<close>.
\<close>

theorem opt_check_common_error_counterexample:
  "files_accessible demo_world (demo_opt\<lparr> repetitions := 0 \<rparr>)
   \<and> repetitions (demo_opt\<lparr> repetitions := 0 \<rparr>) = 0
   \<and> test_inference_opt_check (- 19) demo_world (demo_opt\<lparr> repetitions := 0 \<rparr>) = - 19
   \<and> - 19 \<noteq> - EINVAL"
  by code_simp

section \<open>Properties of the teardown of a model\<close>

lemma iomem_destroy_result:
  "\<exists>w1. ml_inference_iomem_destroy w fd = Inr w1
        \<and> memzones w1 (mz_name fd) = None \<and> mempools w1 (mp_name fd) = None
        \<and> (memzones w (mz_name fd) = None \<longrightarrow> memzones w1 = memzones w)
        \<and> (mempools w (mp_name fd) = None \<longrightarrow> mempools w1 = mempools w)"
  by (auto simp: ml_inference_iomem_destroy_def rte_memzone_lookup_def rte_mempool_lookup_def
      rte_memzone_free_def rte_mempool_free_def Let_def split: option.splits)

lemma iomem_destroy_noop:
  "memzones w (mz_name fd) = None \<Longrightarrow> mempools w (mp_name fd) = None \<Longrightarrow>
     ml_inference_iomem_destroy w fd = Inr w"
  by (simp add: ml_inference_iomem_destroy_def rte_memzone_lookup_def rte_mempool_lookup_def)

text \<open>
  C8. \<open>ml_inference_iomem_destroy\<close> never faults. It leaves the memzone registry as it is
  when the memzone of the model was never reserved, the pool registry as it is when the
  pool was never created, and the whole state as it is when neither exists. After a first
  call neither exists, so a second call changes nothing: it frees nothing again.
\<close>

theorem iomem_destroy_idempotent:
  "\<exists>w1. ml_inference_iomem_destroy w fd = Inr w1
       \<and> ml_inference_iomem_destroy w1 fd = Inr w1
       \<and> (memzones w (mz_name fd) = None \<longrightarrow> memzones w1 = memzones w)
       \<and> (mempools w (mp_name fd) = None \<longrightarrow> mempools w1 = mempools w)
       \<and> (memzones w (mz_name fd) = None \<and> mempools w (mp_name fd) = None \<longrightarrow> w1 = w)"
proof -
  obtain w1 where w1: "ml_inference_iomem_destroy w fd = Inr w1"
    and z: "memzones w1 (mz_name fd) = None" and p: "mempools w1 (mp_name fd) = None"
    and kz: "memzones w (mz_name fd) = None \<longrightarrow> memzones w1 = memzones w"
    and kp: "mempools w (mp_name fd) = None \<longrightarrow> mempools w1 = mempools w"
    using iomem_destroy_result [of w fd] by (elim exE conjE)
  have again: "ml_inference_iomem_destroy w1 fd = Inr w1"
    using z p by (rule iomem_destroy_noop)
  have same: "memzones w (mz_name fd) = None \<and> mempools w (mp_name fd) = None \<longrightarrow> w1 = w"
  proof
    assume "memzones w (mz_name fd) = None \<and> mempools w (mp_name fd) = None"
    then have "ml_inference_iomem_destroy w fd = Inr w"
      by (simp add: iomem_destroy_noop)
    with w1 show "w1 = w"
      by simp
  qed
  show ?thesis
    by (rule exI [of _ w1]) (intro conjI w1 again kz kp same)
qed

theorem iomem_destroy_idempotent_witness:
  "memzones demo_built (mz_name 0) \<noteq> None \<and> mempools demo_built (mp_name 0) \<noteq> None
   \<and> (\<exists>w1. ml_inference_iomem_destroy demo_built 0 = Inr w1
          \<and> ml_inference_iomem_destroy w1 0 = Inr w1)
   \<and> memzones demo_world (mz_name 0) = None \<and> mempools demo_world (mp_name 0) = None
   \<and> ml_inference_iomem_destroy demo_world 0 = Inr demo_world"
proof -
  have a1: "memzones demo_built (mz_name 0) \<noteq> None"
    by code_simp
  have a2: "mempools demo_built (mp_name 0) \<noteq> None"
    by code_simp
  have b: "memzones demo_world (mz_name 0) = None \<and> mempools demo_world (mp_name 0) = None"
    by (simp add: demo_world_def)
  obtain w1 where w1: "ml_inference_iomem_destroy demo_built 0 = Inr w1"
    "ml_inference_iomem_destroy w1 0 = Inr w1"
    using iomem_destroy_idempotent [of demo_built 0] by blast
  obtain w2 where w2: "ml_inference_iomem_destroy demo_world 0 = Inr w2"
    "memzones demo_world (mz_name 0) = None \<and> mempools demo_world (mp_name 0) = None
       \<longrightarrow> w2 = demo_world"
    using iomem_destroy_idempotent [of demo_world 0] by blast
  have "w2 = demo_world"
    using w2(2) b by (rule mp)
  then have c: "ml_inference_iomem_destroy demo_world 0 = Inr demo_world"
    using w2(1) by simp
  have d: "\<exists>w1. ml_inference_iomem_destroy demo_built 0 = Inr w1
          \<and> ml_inference_iomem_destroy w1 0 = Inr w1"
    using w1 by blast
  show ?thesis
    using a1 a2 b c d by (intro conjI) simp_all
qed

section \<open>Properties of the setup of the pools\<close>


lemma mempools_request_initialize [simp]:
  "mempools (ml_request_initialize cfg obj w) = mempools w"
  by (simp add: ml_request_initialize_def Let_def)

lemma priv_request_initialize [simp]:
  "priv (ml_request_initialize cfg obj w) = priv w"
  by (simp add: ml_request_initialize_def Let_def)

lemma mempools_fold_initialize [simp]:
  "mempools (fold (ml_request_initialize cfg) objs w) = mempools w"
  by (induction objs arbitrary: w) simp_all

lemma priv_fold_initialize [simp]:
  "priv (fold (ml_request_initialize cfg) objs w) = priv w"
  by (induction objs arbitrary: w) simp_all

lemma mempools_upd_model [simp]: "mempools (upd_model i f w) = mempools w"
  by (simp add: upd_model_def)

lemma model_upd_model [simp]:
  "model (priv (upd_model i f w)) = (model (priv w))[i := f (model (priv w) ! i)]"
  by (simp add: upd_model_def)

lemma unat_ucast_up:
  "unat (ucast (x :: u32) :: u64) = unat x"
proof -
  have "unat x < 2 ^ 32"
    using unsigned_less [of x] by simp
  then have "unat x < 2 ^ 64"
    by simp
  then show ?thesis
    by (simp add: unsigned_ucast_eq take_bit_nat_eq_self)
qed

lemma unat_ucast_down:
  "unat (ucast (x :: u64) :: u32) = unat x mod 2 ^ 32"
  by (simp add: unsigned_ucast_eq take_bit_eq_mod)

lemma fread_complete:
  assumes "(ucast (of_nat len :: u32) :: u64) = dsize"
  shows "min (unat dsize) len = unat dsize"
proof -
  have "unat dsize = len mod 2 ^ 32"
    using assms [symmetric] by (simp add: unat_ucast_up unat_of_nat)
  then show ?thesis
    by (simp add: min_def)
qed

lemma nb_buffers_fits:
  "unat (ucast (min (ucast (c :: u32) :: u64) r) :: u32) = min (unat c) (unat r)"
proof -
  have eq: "unat (min (ucast c :: u64) r) = min (unat c) (unat r)"
    by (simp add: min_def word_le_nat_alt unat_ucast_up)
  have "unat c < 2 ^ 32"
    using unsigned_less [of c] by simp
  then have "min (unat c) (unat r) < 2 ^ 32"
    by simp
  then show ?thesis
    by (simp add: unat_ucast_down eq)
qed

lemma rte_mempool_create_Some:
  assumes "rte_mempool_create name n sz cb w = (Some nm, w')"
      and "\<And>objs v. mempools (fold cb objs v) = mempools v"
  shows "nm = name \<and> mempools w name = None
         \<and> mempools w' = (mempools w)(name \<mapsto> \<lparr> mp_size = n, mp_elt_size = sz,
               mp_elts = map (\<lambda>i. next_addr w + i * sz) [0 ..< n],
               mp_avail = map (\<lambda>i. next_addr w + i * sz) [0 ..< n] \<rparr>)"
  using assms by (auto simp: rte_mempool_create_def Let_def split: if_splits)

lemma rte_mempool_create_None:
  "rte_mempool_create name n sz cb w = (None, w') \<Longrightarrow> w' = w"
  by (auto simp: rte_mempool_create_def Let_def split: if_splits)

lemma rte_mempool_create_priv:
  assumes "rte_mempool_create name n sz cb w = (mp, w')"
      and "\<And>objs v. priv (fold cb objs v) = priv v"
  shows "priv w' = priv w"
  using assms by (auto simp: rte_mempool_create_def Let_def split: if_splits)

lemma nb_buffers_eq:
  "nb_buffers cfg opt = min (unat (ML_TEST_MAX_POOL_SIZE cfg)) (unat (repetitions opt))"
  by (simp add: nb_buffers_def nb_buffers_fits)

lemma create_io_pool_Some:
  assumes "create_io_pool cfg w opt fd = (Some nm, w')" and "unat fd < length (model (priv w))"
  shows "nm = mp_name fd \<and> io_pool (model (priv w') ! unat fd) = Some (mp_name fd)
         \<and> length (model (priv w')) = length (model (priv w))
         \<and> (\<exists>p. mempools w' (mp_name fd) = Some p
            \<and> mp_size p = min (unat (ML_TEST_MAX_POOL_SIZE cfg)) (unat (repetitions opt))
            \<and> length (mp_elts p) = mp_size p \<and> mp_avail p = mp_elts p)"
proof -
  let ?w1 = "w\<lparr> priv := (priv w)\<lparr> t_fid := fd \<rparr> \<rparr>"
  obtain mp w2 where c: "rte_mempool_create (mp_name fd) (nb_buffers cfg opt)
      (buff_size cfg w (unat fd)) (ml_request_initialize cfg) ?w1 = (mp, w2)"
    by (cases "rte_mempool_create (mp_name fd) (nb_buffers cfg opt)
      (buff_size cfg w (unat fd)) (ml_request_initialize cfg) ?w1") simp
  from assms(1) c have both: "mp = Some nm \<and> upd_model (unat fd) (\<lambda>m. m\<lparr> io_pool := mp \<rparr>) w2 = w'"
    by (auto simp: create_io_pool_def Let_def)
  note mp = both [THEN conjunct1] and w' = both [THEN conjunct2, symmetric]
  have pw2: "priv w2 = priv ?w1"
    using c by (rule rte_mempool_create_priv) simp
  have cr: "nm = mp_name fd \<and> mempools ?w1 (mp_name fd) = None
         \<and> mempools w2 = (mempools ?w1)(mp_name fd \<mapsto> \<lparr> mp_size = nb_buffers cfg opt,
               mp_elt_size = buff_size cfg w (unat fd),
               mp_elts = map (\<lambda>i. next_addr ?w1 + i * buff_size cfg w (unat fd)) [0 ..< nb_buffers cfg opt],
               mp_avail = map (\<lambda>i. next_addr ?w1 + i * buff_size cfg w (unat fd)) [0 ..< nb_buffers cfg opt] \<rparr>)"
    using c [unfolded mp] by (rule rte_mempool_create_Some) simp
  show ?thesis
    using cr pw2 assms(2) unfolding w' mp by (simp add: nb_buffers_eq)
qed

lemma load_input_file_ret:
  assumes "load_input_file w opt i = (Some ret, w')"
  shows "ret \<noteq> 0"
  using assms
  by (auto simp: load_input_file_def Let_def ENOENT_def EINVAL_def fread_complete
      split: option.splits if_splits)

lemma iomem_setup_error_ret:
  "iomem_setup_error mz ret i w = Inr (r, w') \<Longrightarrow> r = ret"
  by (auto simp: iomem_setup_error_def Let_def split: option.splits sum.splits)

lemma get_io_sizes_length:
  "get_io_sizes w i = (r, w') \<Longrightarrow> length (model (priv w')) = length (model (priv w))"
  by (auto simp: get_io_sizes_def Let_def split: prod.splits if_splits)

lemma load_input_file_priv:
  "load_input_file w opt i = (r, w') \<Longrightarrow> priv w' = priv w"
  by (auto simp: load_input_file_def Let_def split: option.splits if_splits)

lemma rte_memzone_reserve_priv:
  "rte_memzone_reserve name len w = (r, w') \<Longrightarrow> priv w' = priv w"
  by (auto simp: rte_memzone_reserve_def Let_def split: if_splits)

lemma create_io_pool_name:
  "create_io_pool cfg w opt fd = (Some nm, w') \<Longrightarrow> nm = mp_name fd"
  by (auto simp: create_io_pool_def rte_mempool_create_def Let_def split: if_splits prod.splits)

lemma iomem_setup_pool_success:
  assumes "iomem_setup_pool cfg w opt fd mz = Inr (0, w')"
  shows "create_io_pool cfg w opt fd = (Some (mp_name fd), w')"
proof -
  obtain mp w1 where c: "create_io_pool cfg w opt fd = (mp, w1)"
    by (cases "create_io_pool cfg w opt fd")
  show ?thesis
  proof (cases mp)
    case None
    with assms c have "iomem_setup_error mz (- ENOMEM) (unat fd) w1 = Inr (0, w')"
      by (simp add: iomem_setup_pool_def)
    then have "(0::int) = - ENOMEM"
      by (rule iomem_setup_error_ret)
    then show ?thesis
      by (simp add: ENOMEM_def)
  next
    case (Some nm)
    with assms c have "w1 = w'"
      by (simp add: iomem_setup_pool_def)
    moreover have "nm = mp_name fd"
      using c Some create_io_pool_name by blast
    ultimately show ?thesis
      using c Some by simp
  qed
qed

lemma iomem_setup_file_success:
  assumes "iomem_setup_file cfg w opt fd mz = Inr (0, w')"
  shows "\<exists>w1. load_input_file w opt (unat fd) = (None, w1)
            \<and> create_io_pool cfg w1 opt fd = (Some (mp_name fd), w')"
proof -
  obtain failed w1 where l: "load_input_file w opt (unat fd) = (failed, w1)"
    by (cases "load_input_file w opt (unat fd)")
  show ?thesis
  proof (cases failed)
    case None
    with assms l have "iomem_setup_pool cfg w1 opt fd mz = Inr (0, w')"
      by (simp add: iomem_setup_file_def)
    then have "create_io_pool cfg w1 opt fd = (Some (mp_name fd), w')"
      by (rule iomem_setup_pool_success)
    with l None show ?thesis
      by simp
  next
    case (Some ret)
    with assms l have "iomem_setup_error mz ret (unat fd) w1 = Inr (0, w')"
      by (simp add: iomem_setup_file_def)
    then have "0 = ret"
      by (rule iomem_setup_error_ret)
    moreover have "ret \<noteq> 0"
      using l Some load_input_file_ret by blast
    ultimately show ?thesis
      by simp
  qed
qed

lemma iomem_setup_memzone_success:
  assumes "iomem_setup_memzone cfg w opt fd = Inr (0, w')"
  shows "\<exists>z zone w1. rte_memzone_reserve (mz_name fd)
              (unat (ucast (inp_dsize (model (priv w) ! unat fd)
                            + out_dsize (model (priv w) ! unat fd)) :: u32)) w
              = (Some (z, zone), w1)
            \<and> iomem_setup_file cfg
                 (upd_model (unat fd) (\<lambda>m. m\<lparr> model_input := Some (mz_addr zone),
                    model_output := Some (mz_addr zone + unat (inp_dsize m)) \<rparr>) w1)
                 opt fd (Some (z, zone)) = Inr (0, w')"
proof -
  let ?len = "unat (ucast (inp_dsize (model (priv w) ! unat fd)
                            + out_dsize (model (priv w) ! unat fd)) :: u32)"
  obtain mz w1 where r: "rte_memzone_reserve (mz_name fd) ?len w = (mz, w1)"
    by (cases "rte_memzone_reserve (mz_name fd) ?len w")
  show ?thesis
  proof (cases mz)
    case None
    with assms r have "iomem_setup_error None (- ENOMEM) (unat fd) w1 = Inr (0, w')"
      by (simp add: iomem_setup_memzone_def Let_def)
    then have "(0::int) = - ENOMEM"
      by (rule iomem_setup_error_ret)
    then show ?thesis
      by (simp add: ENOMEM_def)
  next
    case (Some zz)
    obtain z zone where zz: "zz = (z, zone)"
      by (cases zz)
    with assms r Some show ?thesis
      by (simp add: iomem_setup_memzone_def Let_def)
  qed
qed

lemma iomem_setup_success:
  assumes "ml_inference_iomem_setup cfg w opt fd = Inr (0, w')"
  shows "\<exists>w4. create_io_pool cfg w4 opt fd = (Some (mp_name fd), w')
            \<and> unat fd < length (model (priv w4))
            \<and> length (model (priv w4)) = length (model (priv w))"
proof -
  from assms have rng: "unat fd < length (model (priv w))"
    by (simp add: ml_inference_iomem_setup_def split: if_splits)
  obtain ret w1 where g: "get_io_sizes w (unat fd) = (ret, w1)"
    by (cases "get_io_sizes w (unat fd)")
  have l1: "length (model (priv w1)) = length (model (priv w))"
    using g by (rule get_io_sizes_length)
  from assms rng g have m: "iomem_setup_memzone cfg w1 opt fd = Inr (0, w')"
    by (auto simp: ml_inference_iomem_setup_def split: if_splits)
  then obtain z zone w2 w3 where
    r: "rte_memzone_reserve (mz_name fd)
              (unat (ucast (inp_dsize (model (priv w1) ! unat fd)
                            + out_dsize (model (priv w1) ! unat fd)) :: u32)) w1
              = (Some (z, zone), w2)"
    and w3: "w3 = upd_model (unat fd) (\<lambda>m. m\<lparr> model_input := Some (mz_addr zone),
                    model_output := Some (mz_addr zone + unat (inp_dsize m)) \<rparr>) w2"
    and f: "iomem_setup_file cfg w3 opt fd (Some (z, zone)) = Inr (0, w')"
    using iomem_setup_memzone_success [OF m] by blast
  have l2: "priv w2 = priv w1"
    using r by (rule rte_memzone_reserve_priv)
  obtain w4 where l: "load_input_file w3 opt (unat fd) = (None, w4)"
    and c: "create_io_pool cfg w4 opt fd = (Some (mp_name fd), w')"
    using iomem_setup_file_success [OF f] by blast
  have l4: "priv w4 = priv w3"
    using l by (rule load_input_file_priv)
  have "length (model (priv w4)) = length (model (priv w))"
    using l4 l2 l1 w3 by simp
  then show ?thesis
    using c rng by auto
qed

lemma fold_const_id: "fold (\<lambda>obj w'. w') objs v = v"
  by (induction objs) simp_all

lemma mem_setup_success:
  assumes "ml_inference_mem_setup cfg w opt = (0, w')"
  shows "op_pool (priv w') = Some ''ml_test_op_pool''
         \<and> (\<exists>p. mempools w' ''ml_test_op_pool'' = Some p
                \<and> mp_size p = unat (ML_TEST_MAX_POOL_SIZE cfg)
                \<and> length (mp_elts p) = mp_size p \<and> mp_avail p = mp_elts p)"
proof -
  obtain mp w1 where c: "rte_mempool_create ''ml_test_op_pool'' (unat (ML_TEST_MAX_POOL_SIZE cfg))
      (sizeof_rte_ml_op cfg) (\<lambda>obj w'. w') w = (mp, w1)"
    by (cases "rte_mempool_create ''ml_test_op_pool'' (unat (ML_TEST_MAX_POOL_SIZE cfg))
      (sizeof_rte_ml_op cfg) (\<lambda>obj w'. w') w")
  from assms c have both: "mp \<noteq> None \<and> w' = w1\<lparr> priv := (priv w1)\<lparr> op_pool := mp \<rparr> \<rparr>"
    by (auto simp: ml_inference_mem_setup_def rte_ml_op_pool_create_def Let_def ENOMEM_def
        split: if_splits)
  then obtain nm where mp: "mp = Some nm"
    by auto
  have cr: "nm = ''ml_test_op_pool'' \<and> mempools w ''ml_test_op_pool'' = None
         \<and> mempools w1 = (mempools w)(''ml_test_op_pool'' \<mapsto> \<lparr> mp_size = unat (ML_TEST_MAX_POOL_SIZE cfg),
               mp_elt_size = sizeof_rte_ml_op cfg,
               mp_elts = map (\<lambda>i. next_addr w + i * sizeof_rte_ml_op cfg) [0 ..< unat (ML_TEST_MAX_POOL_SIZE cfg)],
               mp_avail = map (\<lambda>i. next_addr w + i * sizeof_rte_ml_op cfg) [0 ..< unat (ML_TEST_MAX_POOL_SIZE cfg)] \<rparr>)"
    using c [unfolded mp] by (rule rte_mempool_create_Some) (simp add: fold_const_id)
  show ?thesis
    using cr mp both by simp
qed

text \<open>
  C3, as amended. A successful \<open>ml_inference_iomem_setup\<close> leaves the model with a pool
  named after it whose capacity is the minimum of \<open>ML_TEST_MAX_POOL_SIZE\<close> and the
  configured repetition count. A successful \<open>ml_inference_mem_setup\<close> creates the operation
  pool with the capacity \<open>ML_TEST_MAX_POOL_SIZE\<close>, whatever the repetition count.
\<close>
theorem pool_capacities:
  "(ml_inference_iomem_setup cfg w opt fd = Inr (0, w') \<longrightarrow>
      io_pool (model (priv w') ! unat fd) = Some (mp_name fd)
      \<and> (\<exists>p. mempools w' (mp_name fd) = Some p
             \<and> mp_size p = min (unat (ML_TEST_MAX_POOL_SIZE cfg)) (unat (repetitions opt))
             \<and> length (mp_elts p) = mp_size p))
   \<and> (ml_inference_mem_setup cfg w opt = (0, w'') \<longrightarrow>
      op_pool (priv w'') = Some ''ml_test_op_pool''
      \<and> (\<exists>p. mempools w'' ''ml_test_op_pool'' = Some p
             \<and> mp_size p = unat (ML_TEST_MAX_POOL_SIZE cfg)
             \<and> length (mp_elts p) = mp_size p))"
proof (intro conjI impI)
  assume a: "ml_inference_iomem_setup cfg w opt fd = Inr (0, w')"
  then obtain w4 where c: "create_io_pool cfg w4 opt fd = (Some (mp_name fd), w')"
    and r: "unat fd < length (model (priv w4))"
    using iomem_setup_success by blast
  from create_io_pool_Some [OF c r]
  show "io_pool (model (priv w') ! unat fd) = Some (mp_name fd)"
    and "\<exists>p. mempools w' (mp_name fd) = Some p
             \<and> mp_size p = min (unat (ML_TEST_MAX_POOL_SIZE cfg)) (unat (repetitions opt))
             \<and> length (mp_elts p) = mp_size p"
    by auto
next
  assume a: "ml_inference_mem_setup cfg w opt = (0, w'')"
  from mem_setup_success [OF a]
  show "op_pool (priv w'') = Some ''ml_test_op_pool''"
    and "\<exists>p. mempools w'' ''ml_test_op_pool'' = Some p
             \<and> mp_size p = unat (ML_TEST_MAX_POOL_SIZE cfg)
             \<and> length (mp_elts p) = mp_size p"
    by auto
qed

lemma demo_iomem_setup_ok:
  "(case ml_inference_iomem_setup demo_cfg demo_world demo_opt 0 of
      Inl f \<Rightarrow> False | Inr (r, w) \<Rightarrow> r = 0)"
  by code_simp

lemma demo_mem_setup_ok: "fst (ml_inference_mem_setup demo_cfg demo_world demo_opt) = 0"
  by code_simp

theorem pool_capacities_witness:
  "(\<exists>w' p. ml_inference_iomem_setup demo_cfg demo_world demo_opt 0 = Inr (0, w')
      \<and> mempools w' (mp_name 0) = Some p \<and> mp_size p = 2)
   \<and> (\<exists>w'' p. ml_inference_mem_setup demo_cfg demo_world demo_opt = (0, w'')
      \<and> mempools w'' ''ml_test_op_pool'' = Some p \<and> mp_size p = 4)"
proof -
  obtain w' where a: "ml_inference_iomem_setup demo_cfg demo_world demo_opt 0 = Inr (0, w')"
    using demo_iomem_setup_ok by (auto split: sum.splits)
  obtain w'' where b: "ml_inference_mem_setup demo_cfg demo_world demo_opt = (0, w'')"
    using demo_mem_setup_ok by (cases "ml_inference_mem_setup demo_cfg demo_world demo_opt") auto
  from pool_capacities [of demo_cfg demo_world demo_opt 0 w' w''] a b
  obtain p q where "mempools w' (mp_name 0) = Some p" "mp_size p = 2"
    "mempools w'' ''ml_test_op_pool'' = Some q" "mp_size q = 4"
    by (auto simp: demo_cfg_def demo_opt_def)
  with a b show ?thesis
    by (intro conjI exI) 
qed

text \<open>
  The claim C3 as stated gives the operation pool the same minimum. With two repetitions
  and a ceiling of four the operation pool has four elements, not two.
\<close>

theorem op_pool_capacity_counterexample:
  "repetitions demo_opt = 2 \<and> ML_TEST_MAX_POOL_SIZE demo_cfg = 4
   \<and> fst (ml_inference_mem_setup demo_cfg demo_world demo_opt) = 0
   \<and> map_option mp_size
        (mempools (snd (ml_inference_mem_setup demo_cfg demo_world demo_opt)) ''ml_test_op_pool'')
      = Some 4
   \<and> min (unat (ML_TEST_MAX_POOL_SIZE demo_cfg)) (unat (repetitions demo_opt)) = 2"
  by code_simp

section \<open>Properties of the verdict\<close>

lemma foldl_plus_sum_list: "foldl (+) (a :: u64) xs = a + sum_list xs"
  by (induction xs arbitrary: a) (simp_all add: add.assoc)

lemma add_used_0 [simp]: "add_used 0 w = w"
  by (simp add: add_used_def)

lemma add_used_add: "add_used m (add_used n w) = add_used (n + m) w"
  by (simp add: add_used_def add.assoc)

lemma add_used_frame [simp]:
  "reqs (add_used n w) = reqs w" "mempools (add_used n w) = mempools w"
  "model (priv (add_used n w)) = model (priv w)"
  "error_count (priv (add_used n w)) = error_count (priv w)"
  "nb_used (priv (add_used n w)) = nb_used (priv w) + n"
  by (simp_all add: add_used_def)

lemma used_objs_add_used [simp]: "used_objs (add_used n w) objs = used_objs w objs"
  by (simp add: used_objs_def)

lemma ml_request_finish_Inr:
  "ml_request_finish obj w = Inr w' \<Longrightarrow>
     w' = add_used (of_nat (length (used_objs w [obj]))) w"
  by (auto simp: ml_request_finish_def used_objs_def add_used_def Let_def split: if_splits)

lemma obj_iter_finish_Inr:
  "obj_iter ml_request_finish objs w = Inr w' \<Longrightarrow>
     w' = add_used (of_nat (length (used_objs w objs))) w"
proof (induction objs arbitrary: w)
  case Nil
  then show ?case by (simp add: used_objs_def)
next
  case (Cons obj objs)
  from Cons.prems obtain w1 where f: "ml_request_finish obj w = Inr w1"
    and r: "obj_iter ml_request_finish objs w1 = Inr w'"
    by (auto split: sum.splits)
  have w1: "w1 = add_used (of_nat (length (used_objs w [obj]))) w"
    using f by (rule ml_request_finish_Inr)
  have "w' = add_used (of_nat (length (used_objs w1 objs))) w1"
    using r by (rule Cons.IH)
  then show ?case
    unfolding w1 by (simp add: add_used_add used_objs_def)
qed

lemma obj_iter_finish_defined:
  "fids_in_range w objs \<Longrightarrow> \<exists>w'. obj_iter ml_request_finish objs w = Inr w'"
proof (induction objs arbitrary: w)
  case Nil
  then show ?case by simp
next
  case (Cons obj objs)
  have "\<exists>w1. ml_request_finish obj w = Inr w1"
    using Cons.prems
    by (cases "niters (reqs w obj) = 0")
      (simp_all add: ml_request_finish_def fids_in_range_def used_objs_def Let_def)
  then obtain w1 where f: "ml_request_finish obj w = Inr w1"
    by blast
  have w1: "w1 = add_used (of_nat (length (used_objs w [obj]))) w"
    using f by (rule ml_request_finish_Inr)
  have "fids_in_range w1 objs"
    using Cons.prems unfolding w1 by (auto simp: fids_in_range_def used_objs_def split: if_splits)
  then obtain w' where "obj_iter ml_request_finish objs w1 = Inr w'"
    using Cons.IH by blast
  with f show ?case
    by simp
qed

lemma inference_result_Inr:
  assumes "ml_inference_result w fd = Inr (res, w')"
  shows "\<exists>p. pool_of w fd = Some p
           \<and> w' = set_result res (add_used (of_nat (length (used_objs w (mp_elts p)))) w)
           \<and> res = (if 0 < nb_used (priv w) + of_nat (length (used_objs w (mp_elts p)))
                         \<and> sum_list (error_count (priv w)) = 0
                      then ML_TEST_SUCCESS else ML_TEST_FAILED)"
proof -
  from assms have rng: "unat fd < length (model (priv w))"
    by (simp add: ml_inference_result_def Let_def split: if_splits)
  from assms rng obtain name where nm: "io_pool (model (priv w) ! unat fd) = Some name"
    by (cases "io_pool (model (priv w) ! unat fd)")
      (auto simp: ml_inference_result_def rte_mempool_obj_iter_def Let_def)
  from assms rng nm obtain p where p: "mempools w name = Some p"
    by (cases "mempools w name")
      (auto simp: ml_inference_result_def rte_mempool_obj_iter_def Let_def)
  from assms rng nm p obtain w1 where it: "obj_iter ml_request_finish (mp_elts p) w = Inr w1"
    by (cases "obj_iter ml_request_finish (mp_elts p) w")
      (auto simp: ml_inference_result_def rte_mempool_obj_iter_def Let_def)
  have w1: "w1 = add_used (of_nat (length (used_objs w (mp_elts p)))) w"
    using it by (rule obj_iter_finish_Inr)
  have po: "pool_of w fd = Some p"
    using rng nm p by (simp add: pool_of_def)
  from assms rng nm p it
  have "res = (if 0 < nb_used (priv w1) \<and> sum_list (error_count (priv w)) = 0
               then ML_TEST_SUCCESS else ML_TEST_FAILED) \<and> w' = set_result res w1"
    by (auto simp: ml_inference_result_def rte_mempool_obj_iter_def Let_def set_result_def
        foldl_plus_sum_list)
  then show ?thesis
    using po unfolding w1 by simp
qed

lemma inference_result_defined:
  assumes "pool_of w fd = Some p" and "fids_in_range w (mp_elts p)"
  shows "\<exists>res w'. ml_inference_result w fd = Inr (res, w')"
proof -
  from assms(1) have rng: "unat fd < length (model (priv w))"
    by (simp add: pool_of_def split: if_splits)
  from assms(1) rng obtain name where nm: "io_pool (model (priv w) ! unat fd) = Some name"
    and p: "mempools w name = Some p"
    by (auto simp: pool_of_def split: option.splits)
  obtain w1 where "obj_iter ml_request_finish (mp_elts p) w = Inr w1"
    using obj_iter_finish_defined [OF assms(2)] by blast
  with rng nm p show ?thesis
    by (simp add: ml_inference_result_def rte_mempool_obj_iter_def Let_def)
qed

lemma set_result_frame [simp]:
  "nb_used (priv (set_result res w)) = nb_used (priv w)"
  "error_count (priv (set_result res w)) = error_count (priv w)"
  "cmn_result (priv (set_result res w)) = res"
  "reqs (set_result res w) = reqs w" "mempools (set_result res w) = mempools w"
  "model (priv (set_result res w)) = model (priv w)"
  by (simp_all add: set_result_def)

text \<open>
  C2. Whenever \<open>ml_inference_result\<close> returns, it returns \<open>ML_TEST_SUCCESS\<close> exactly when the
  counter \<open>nb_used\<close> (as it stands after the walk over the pool) is positive and the 64-bit
  sum of the error counters of all lcores is zero, and \<open>ML_TEST_FAILED\<close> otherwise; the
  verdict is stored in \<open>t->cmn.result\<close>. It returns whenever the pool of the model exists
  and every dispatched buffer of the pool carries the index of an existing model.
\<close>

theorem inference_result_verdict:
  "(\<forall>res w'. ml_inference_result w fd = Inr (res, w') \<longrightarrow>
       (res = ML_TEST_SUCCESS \<longleftrightarrow>
          0 < nb_used (priv w') \<and> sum_list (error_count (priv w')) = 0)
     \<and> (res \<noteq> ML_TEST_SUCCESS \<longrightarrow> res = ML_TEST_FAILED)
     \<and> cmn_result (priv w') = res
     \<and> error_count (priv w') = error_count (priv w))
   \<and> (\<forall>p. pool_of w fd = Some p \<and> fids_in_range w (mp_elts p) \<longrightarrow>
         (\<exists>res w'. ml_inference_result w fd = Inr (res, w')))"
proof (intro conjI allI impI)
  fix res w'
  assume a: "ml_inference_result w fd = Inr (res, w')"
  from inference_result_Inr [OF a] obtain p where
    po: "pool_of w fd = Some p"
    and w': "w' = set_result res (add_used (of_nat (length (used_objs w (mp_elts p)))) w)"
    and r: "res = (if 0 < nb_used (priv w) + of_nat (length (used_objs w (mp_elts p)))
                         \<and> sum_list (error_count (priv w)) = 0
                      then ML_TEST_SUCCESS else ML_TEST_FAILED)"
    by (elim exE conjE)
  show "res = ML_TEST_SUCCESS \<longleftrightarrow>
          0 < nb_used (priv w') \<and> sum_list (error_count (priv w')) = 0"
    unfolding w' using r by (simp split: if_splits)
  show "res = ML_TEST_FAILED" if "res \<noteq> ML_TEST_SUCCESS"
    using that by (cases res) simp_all
  show "cmn_result (priv w') = res"
    unfolding w' by simp
  show "error_count (priv w') = error_count (priv w)"
    unfolding w' by simp
next
  fix p
  assume "pool_of w fd = Some p \<and> fids_in_range w (mp_elts p)"
  then show "\<exists>res w'. ml_inference_result w fd = Inr (res, w')"
    using inference_result_defined by blast
qed

lemma demo_done_success:
  "(case ml_inference_result demo_done 0 of Inl f \<Rightarrow> False
    | Inr (res, w) \<Rightarrow> res = ML_TEST_SUCCESS)"
  by code_simp

lemma demo_done_pool0:
  "pool_of demo_done 0 = Some \<lparr> mp_size = 2, mp_elt_size = 48,
                    mp_elts = [328, 376], mp_avail = [328, 376] \<rparr>"
  by code_simp

lemma demo_done_pool1:
  "pool_of demo_done 1 = Some \<lparr> mp_size = 2, mp_elt_size = 48,
                    mp_elts = [432, 480], mp_avail = [432, 480] \<rparr>"
  by code_simp

lemma demo_done_used0: "used_objs demo_done [328, 376] = [328]"
  by code_simp

lemma demo_done_used1: "used_objs demo_done [432, 480] = []"
  by code_simp

lemma demo_done_range: "fids_in_range demo_done [328, 376]"
  by code_simp

lemma demo_done_errors: "sum_list (error_count (priv demo_done)) = 0"
  by code_simp

lemma demo_done_nb_used: "nb_used (priv demo_done) = 0"
  by code_simp

theorem inference_result_verdict_witness:
  "pool_of demo_done 0 \<noteq> None
   \<and> (\<exists>w'. ml_inference_result demo_done 0 = Inr (ML_TEST_SUCCESS, w')
          \<and> 0 < nb_used (priv w') \<and> sum_list (error_count (priv w')) = 0
          \<and> cmn_result (priv w') = ML_TEST_SUCCESS)"
proof -
  obtain w' where r: "ml_inference_result demo_done 0 = Inr (ML_TEST_SUCCESS, w')"
    using demo_done_success by (auto split: sum.splits)
  have "(ML_TEST_SUCCESS = ML_TEST_SUCCESS \<longleftrightarrow>
          0 < nb_used (priv w') \<and> sum_list (error_count (priv w')) = 0)
        \<and> cmn_result (priv w') = ML_TEST_SUCCESS"
    using inference_result_verdict [of demo_done 0] r by auto
  then have "0 < nb_used (priv w') \<and> sum_list (error_count (priv w')) = 0
        \<and> cmn_result (priv w') = ML_TEST_SUCCESS"
    by simp
  with r have "\<exists>w'. ml_inference_result demo_done 0 = Inr (ML_TEST_SUCCESS, w')
          \<and> 0 < nb_used (priv w') \<and> sum_list (error_count (priv w')) = 0
          \<and> cmn_result (priv w') = ML_TEST_SUCCESS"
    by (intro exI [of _ w'] conjI) simp_all
  then show ?thesis
    by (simp add: demo_done_pool0)
qed

section \<open>What the steps of the workers leave unchanged\<close>

lemma rte_mempool_get_frame:
  assumes "rte_mempool_get mp w = Inr (obj, w')"
  shows "priv w' = priv w \<and> reqs w' = reqs w \<and> ops w' = ops w \<and> dev w' = dev w
         \<and> memzones w' = memzones w"
  using assms
  by (auto simp: rte_mempool_get_def split: option.splits list.splits)

lemma rte_mempool_put_frame:
  assumes "rte_mempool_put mp obj w = Inr w'"
  shows "priv w' = priv w \<and> reqs w' = reqs w \<and> ops w' = ops w \<and> dev w' = dev w
         \<and> memzones w' = memzones w"
  using assms
  by (auto simp: rte_mempool_put_def split: option.splits)

lemma populate_op_frame [simp]:
  "priv (populate_op fd p q w) = priv w" "dev (populate_op fd p q w) = dev w"
  "mempools (populate_op fd p q w) = mempools w"
  by (simp_all add: populate_op_def Let_def)

lemma rte_ml_enqueue_burst_frame:
  assumes "rte_ml_enqueue_burst p w = (n, w')"
  shows "priv w' = priv w \<and> reqs w' = reqs w \<and> ops w' = ops w \<and> mempools w' = mempools w"
  using assms by (auto simp: rte_ml_enqueue_burst_def Let_def split: if_splits)

lemma rte_ml_dequeue_burst_frame:
  assumes "rte_ml_dequeue_burst poll w = (b, w')"
  shows "priv w' = priv w \<and> reqs w' = reqs w \<and> mempools w' = mempools w
         \<and> enqueued_count (dev w') = enqueued_count (dev w)"
  using assms
  by (auto simp: rte_ml_dequeue_burst_def Let_def split: option.splits if_splits)

lemma enq_step_priv:
  assumes "enq_step th w = Inr (th', w')"
  shows "priv w' = priv w"
proof (cases "e_pc th")
  case ENQ_ENTRY
  with assms show ?thesis
    by (auto simp: enq_step_def Let_def split: if_splits)
next
  case ENQ_NEXT_MODEL
  with assms show ?thesis
    by (auto simp: enq_step_def Let_def split: if_splits sum.splits option.splits
        dest: rte_mempool_get_frame)
next
  case ENQ_RETRY
  with assms show ?thesis
    by (auto simp: enq_step_def Let_def split: if_splits sum.splits option.splits
        dest!: rte_mempool_get_frame)
next
  case ENQ_ENQUEUE_REQ
  with assms show ?thesis
    by (auto simp: enq_step_def Let_def split: if_splits prod.splits
        dest: rte_ml_enqueue_burst_frame)
next
  case ENQ_RETURN
  with assms show ?thesis
    by (auto simp: enq_step_def Let_def split: if_splits)
qed

lemma deq_complete_frame:
  assumes "deq_complete l p w = Inr w'"
  shows "nb_used (priv w') = nb_used (priv w) \<and> args (priv w') = args (priv w)
         \<and> model (priv w') = model (priv w) \<and> op_pool (priv w') = op_pool (priv w)
         \<and> cmn_result (priv w') = cmn_result (priv w)
         \<and> length (error_count (priv w')) = length (error_count (priv w))
         \<and> reqs w' = reqs w \<and> ops w' = ops w \<and> dev w' = dev w"
proof -
  let ?w1 = "if status (ops w p) = RTE_ML_OP_STATUS_ERROR
             then w\<lparr> priv := (priv w)\<lparr> error_count := (error_count (priv w))
                           [l := error_count (priv w) ! l + 1] \<rparr> \<rparr>
             else w"
  let ?req = "user_ptr (ops ?w1 p)"
  let ?f = "unat (fid (reqs ?w1 ?req))"
  from assms obtain w2 where
    p1: "rte_mempool_put (io_pool (model (priv ?w1) ! ?f)) ?req ?w1 = Inr w2"
    and p2: "rte_mempool_put (op_pool (priv w2)) p w2 = Inr w'"
    by (auto simp: deq_complete_def Let_def split: if_splits sum.splits)
  from rte_mempool_put_frame [OF p1] rte_mempool_put_frame [OF p2]
  show ?thesis
    by (auto split: if_splits)
qed

lemma deq_step_frame:
  assumes "deq_step poll th w = Inr (th', w')"
  shows "nb_used (priv w') = nb_used (priv w) \<and> args (priv w') = args (priv w)
         \<and> model (priv w') = model (priv w) \<and> op_pool (priv w') = op_pool (priv w)
         \<and> cmn_result (priv w') = cmn_result (priv w)
         \<and> length (error_count (priv w')) = length (error_count (priv w))
         \<and> reqs w' = reqs w
         \<and> enqueued_count (dev w') = enqueued_count (dev w)"
proof (cases "d_pc th")
  case DEQ_ENTRY
  with assms show ?thesis
    by (auto simp: deq_step_def Let_def split: if_splits)
next
  case DEQ_DEQUEUE_REQ
  obtain b w1 where b: "rte_ml_dequeue_burst poll w = (b, w1)"
    by (cases "rte_ml_dequeue_burst poll w")
  note f1 = rte_ml_dequeue_burst_frame [OF b]
  show ?thesis
  proof (cases b)
    case None
    with assms DEQ_DEQUEUE_REQ b f1 show ?thesis
      by (auto simp: deq_step_def Let_def split: if_splits)
  next
    case (Some p)
    with assms DEQ_DEQUEUE_REQ b obtain w2 where c: "deq_complete (d_lcore th) p w1 = Inr w2"
      and w': "w' = w2"
      by (auto simp: deq_step_def Let_def split: if_splits sum.splits)
    from deq_complete_frame [OF c] f1 w' show ?thesis
      by simp
  qed
next
  case DEQ_RETURN
  with assms show ?thesis
    by (auto simp: deq_step_def Let_def split: if_splits)
qed

lemma run_nb_used:
  "run sched (e, d, w) = Inr (e', d', w') \<Longrightarrow> nb_used (priv w') = nb_used (priv w)"
proof (induction sched arbitrary: e d w)
  case Nil
  then show ?case by simp
next
  case (Cons a sched)
  show ?case
  proof (cases a)
    case ENQ
    with Cons.prems obtain e1 w1 where s: "enq_step e w = Inr (e1, w1)"
      and r: "run sched (e1, d, w1) = Inr (e', d', w')"
      by (auto split: sum.splits)
    from Cons.IH [OF r] enq_step_priv [OF s] show ?thesis
      by simp
  next
    case (DEQ poll)
    with Cons.prems obtain d1 w1 where s: "deq_step poll d w = Inr (d1, w1)"
      and r: "run sched (e, d1, w1) = Inr (e', d', w')"
      by (auto split: sum.splits)
    from Cons.IH [OF r] deq_step_frame [OF s] show ?thesis
      by simp
  qed
qed

section \<open>The counter of used buffers\<close>

lemma nb_used_upd_model [simp]: "nb_used (priv (upd_model i f w)) = nb_used (priv w)"
  by (simp add: upd_model_def)

lemma get_io_sizes_nb_used:
  "get_io_sizes w i = (r, w') \<Longrightarrow> nb_used (priv w') = nb_used (priv w)"
  by (auto simp: get_io_sizes_def Let_def split: prod.splits if_splits)

lemma rte_memzone_free_priv [simp]: "priv (rte_memzone_free z w) = priv w"
  by (simp add: rte_memzone_free_def split: option.splits)

lemma rte_mempool_free_priv: "rte_mempool_free mp w = Inr w' \<Longrightarrow> priv w' = priv w"
  by (auto simp: rte_mempool_free_def split: option.splits)

lemma iomem_setup_error_nb_used:
  assumes "iomem_setup_error mz ret i w = Inr (r, w')"
  shows "nb_used (priv w') = nb_used (priv w)"
  using assms
  by (auto simp: iomem_setup_error_def Let_def split: option.splits sum.splits
      dest!: rte_mempool_free_priv)

lemma create_io_pool_nb_used:
  assumes "create_io_pool cfg w opt fd = (mp, w')"
  shows "nb_used (priv w') = nb_used (priv w)"
proof -
  let ?w1 = "w\<lparr> priv := (priv w)\<lparr> t_fid := fd \<rparr> \<rparr>"
  obtain mp2 w2 where c: "rte_mempool_create (mp_name fd) (nb_buffers cfg opt)
      (buff_size cfg w (unat fd)) (ml_request_initialize cfg) ?w1 = (mp2, w2)"
    by (cases "rte_mempool_create (mp_name fd) (nb_buffers cfg opt)
      (buff_size cfg w (unat fd)) (ml_request_initialize cfg) ?w1")
  have "priv w2 = priv ?w1"
    using c by (rule rte_mempool_create_priv) simp
  moreover from assms c have "w' = upd_model (unat fd) (\<lambda>m. m\<lparr> io_pool := mp2 \<rparr>) w2"
    by (auto simp: create_io_pool_def Let_def)
  ultimately show ?thesis
    by simp
qed

lemma iomem_setup_pool_nb_used:
  assumes "iomem_setup_pool cfg w opt fd mz = Inr (r, w')"
  shows "nb_used (priv w') = nb_used (priv w)"
proof -
  obtain mp w1 where c: "create_io_pool cfg w opt fd = (mp, w1)"
    by (cases "create_io_pool cfg w opt fd")
  note n1 = create_io_pool_nb_used [OF c]
  from assms c show ?thesis
    using n1 by (auto simp: iomem_setup_pool_def split: if_splits dest!: iomem_setup_error_nb_used)
qed

lemma iomem_setup_file_nb_used:
  assumes "iomem_setup_file cfg w opt fd mz = Inr (r, w')"
  shows "nb_used (priv w') = nb_used (priv w)"
proof -
  obtain failed w1 where l: "load_input_file w opt (unat fd) = (failed, w1)"
    by (cases "load_input_file w opt (unat fd)")
  note n1 = load_input_file_priv [OF l]
  from assms l show ?thesis
    using n1
    by (auto simp: iomem_setup_file_def split: option.splits
        dest!: iomem_setup_error_nb_used iomem_setup_pool_nb_used)
qed

lemma iomem_setup_memzone_nb_used:
  assumes "iomem_setup_memzone cfg w opt fd = Inr (r, w')"
  shows "nb_used (priv w') = nb_used (priv w)"
proof -
  let ?len = "unat (ucast (inp_dsize (model (priv w) ! unat fd)
                            + out_dsize (model (priv w) ! unat fd)) :: u32)"
  obtain mz w1 where z: "rte_memzone_reserve (mz_name fd) ?len w = (mz, w1)"
    by (cases "rte_memzone_reserve (mz_name fd) ?len w")
  note n1 = rte_memzone_reserve_priv [OF z]
  from assms z show ?thesis
    using n1
    by (auto simp: iomem_setup_memzone_def Let_def split: option.splits
        dest!: iomem_setup_error_nb_used iomem_setup_file_nb_used)
qed

lemma iomem_setup_nb_used:
  assumes "ml_inference_iomem_setup cfg w opt fd = Inr (r, w')"
  shows "nb_used (priv w') = nb_used (priv w)"
proof -
  obtain ret w1 where g: "get_io_sizes w (unat fd) = (ret, w1)"
    by (cases "get_io_sizes w (unat fd)")
  note n1 = get_io_sizes_nb_used [OF g]
  from assms g show ?thesis
    using n1
    by (auto simp: ml_inference_iomem_setup_def split: if_splits
        dest!: iomem_setup_memzone_nb_used)
qed

lemma iomem_destroy_priv:
  "ml_inference_iomem_destroy w fd = Inr w' \<Longrightarrow> priv w' = priv w"
  by (auto simp: ml_inference_iomem_destroy_def Let_def rte_mempool_free_def
      split: option.splits)

lemma mem_setup_nb_used:
  assumes "ml_inference_mem_setup cfg w opt = (r, w')"
  shows "nb_used (priv w') = nb_used (priv w)"
proof -
  obtain mp w1 where c: "rte_mempool_create ''ml_test_op_pool'' (unat (ML_TEST_MAX_POOL_SIZE cfg))
      (sizeof_rte_ml_op cfg) (\<lambda>obj w'. w') w = (mp, w1)"
    by (cases "rte_mempool_create ''ml_test_op_pool'' (unat (ML_TEST_MAX_POOL_SIZE cfg))
      (sizeof_rte_ml_op cfg) (\<lambda>obj w'. w') w")
  have "priv w1 = priv w"
    using c by (rule rte_mempool_create_priv) (simp add: fold_const_id)
  with assms c show ?thesis
    by (auto simp: ml_inference_mem_setup_def rte_ml_op_pool_create_def Let_def split: if_splits)
qed

lemma launch_cores_nb_used:
  assumes "ml_inference_launch_cores w opt sfid efid = (r, w', launched)"
  shows "nb_used (priv w') = nb_used (priv w)"
proof -
  have g: "\<And>ls idn ti acc ti' l'. launch_loop opt sfid efid ls idn ti acc = (ti', l')
            \<Longrightarrow> nb_used ti' = nb_used ti"
  proof -
    fix ls idn ti acc ti' l'
    show "launch_loop opt sfid efid ls idn ti acc = (ti', l') \<Longrightarrow> nb_used ti' = nb_used ti"
      by (induction ls arbitrary: idn ti acc) (auto simp: Let_def split: if_splits)
  qed
  from assms show ?thesis
    by (auto simp: ml_inference_launch_cores_def split: prod.splits dest!: g)
qed

lemma setup_nb_used:
  "test_inference_setup nlcore nmodels zmalloc_ok info_ret info opt = (r, Some ti)
     \<Longrightarrow> nb_used ti = 0"
  by (auto simp: test_inference_setup_def split: if_splits)

lemma pool_of_frame [simp]:
  "pool_of (add_used n w) fd = pool_of w fd" "pool_of (set_result res w) fd = pool_of w fd"
  by (simp_all add: pool_of_def add_used_def set_result_def split: option.splits)

lemma used_objs_set_result [simp]: "used_objs (set_result res w) objs = used_objs w objs"
  by (simp add: used_objs_def)

lemma inference_result_unused:
  assumes "pool_of w fd = Some p" and "used_objs w (mp_elts p) = []"
  shows "ml_inference_result w fd =
           Inr (if 0 < nb_used (priv w) \<and> sum_list (error_count (priv w)) = 0
                then ML_TEST_SUCCESS else ML_TEST_FAILED,
                set_result (if 0 < nb_used (priv w) \<and> sum_list (error_count (priv w)) = 0
                then ML_TEST_SUCCESS else ML_TEST_FAILED) w)"
proof -
  have "fids_in_range w (mp_elts p)"
    using assms(2) by (simp add: fids_in_range_def)
  then obtain res w' where r: "ml_inference_result w fd = Inr (res, w')"
    using inference_result_defined [OF assms(1)] by blast
  from inference_result_Inr [OF r] assms obtain
    "w' = set_result res w"
    "res = (if 0 < nb_used (priv w) \<and> sum_list (error_count (priv w)) = 0
            then ML_TEST_SUCCESS else ML_TEST_FAILED)"
    by auto
  with r show ?thesis
    by simp
qed

text \<open>
  C10. \<open>test_inference_setup\<close> sets \<open>nb_used\<close> to 0. The workers, the launcher, the setup
  and the teardown of the pools leave it as it is. \<open>ml_inference_result\<close> adds the number of
  dispatched buffers of the pool it walks and never resets it. So once a call has left the
  counter positive, a later call for a model whose pool has no dispatched buffer returns
  \<open>ML_TEST_SUCCESS\<close> when the summed error counters are zero (and leaves the counter as it
  is).
\<close>

theorem nb_used_never_reset:
  "(\<forall>nlcore nmodels zmalloc_ok info_ret info opt r ti.
      test_inference_setup nlcore nmodels zmalloc_ok info_ret info opt = (r, Some ti)
        \<longrightarrow> nb_used ti = 0)
   \<and> (\<forall>sched e d e' d' w'. run sched (e, d, w) = Inr (e', d', w')
        \<longrightarrow> nb_used (priv w') = nb_used (priv w))
   \<and> (\<forall>opt sfid efid r w' launched.
        ml_inference_launch_cores w opt sfid efid = (r, w', launched)
        \<longrightarrow> nb_used (priv w') = nb_used (priv w))
   \<and> (\<forall>cfg opt fd r w'. ml_inference_iomem_setup cfg w opt fd = Inr (r, w')
        \<longrightarrow> nb_used (priv w') = nb_used (priv w))
   \<and> (\<forall>cfg opt r w'. ml_inference_mem_setup cfg w opt = (r, w')
        \<longrightarrow> nb_used (priv w') = nb_used (priv w))
   \<and> (\<forall>fd w'. ml_inference_iomem_destroy w fd = Inr w'
        \<longrightarrow> nb_used (priv w') = nb_used (priv w))
   \<and> (\<forall>fd res w'. ml_inference_result w fd = Inr (res, w')
        \<longrightarrow> (\<exists>p. pool_of w fd = Some p
               \<and> nb_used (priv w') =
                   nb_used (priv w) + of_nat (length (used_objs w (mp_elts p)))))
   \<and> (\<forall>fd1 res1 w1 fd2 p2.
        ml_inference_result w fd1 = Inr (res1, w1) \<and> 0 < nb_used (priv w1)
        \<and> pool_of w1 fd2 = Some p2 \<and> used_objs w1 (mp_elts p2) = []
        \<and> sum_list (error_count (priv w1)) = 0
        \<longrightarrow> ml_inference_result w1 fd2
              = Inr (ML_TEST_SUCCESS, set_result ML_TEST_SUCCESS w1))"
proof (intro conjI allI impI)
  fix nlcore nmodels zmalloc_ok info_ret info opt r ti
  assume "test_inference_setup nlcore nmodels zmalloc_ok info_ret info opt = (r, Some ti)"
  then show "nb_used ti = 0"
    by (rule setup_nb_used)
next
  fix sched e d e' d' w'
  assume "run sched (e, d, w) = Inr (e', d', w')"
  then show "nb_used (priv w') = nb_used (priv w)"
    by (rule run_nb_used)
next
  fix opt sfid efid r w' launched
  assume "ml_inference_launch_cores w opt sfid efid = (r, w', launched)"
  then show "nb_used (priv w') = nb_used (priv w)"
    by (rule launch_cores_nb_used)
next
  fix cfg opt fd r w'
  assume "ml_inference_iomem_setup cfg w opt fd = Inr (r, w')"
  then show "nb_used (priv w') = nb_used (priv w)"
    by (rule iomem_setup_nb_used)
next
  fix cfg opt r w'
  assume "ml_inference_mem_setup cfg w opt = (r, w')"
  then show "nb_used (priv w') = nb_used (priv w)"
    by (rule mem_setup_nb_used)
next
  fix fd w'
  assume "ml_inference_iomem_destroy w fd = Inr w'"
  then show "nb_used (priv w') = nb_used (priv w)"
    by (simp add: iomem_destroy_priv)
next
  fix fd res w'
  assume a: "ml_inference_result w fd = Inr (res, w')"
  from inference_result_Inr [OF a] obtain p where
    po: "pool_of w fd = Some p"
    and w': "w' = set_result res (add_used (of_nat (length (used_objs w (mp_elts p)))) w)"
    by (elim exE conjE)
  have "nb_used (priv w') = nb_used (priv w) + of_nat (length (used_objs w (mp_elts p)))"
    unfolding w' by simp
  with po show "\<exists>p. pool_of w fd = Some p
               \<and> nb_used (priv w') =
                   nb_used (priv w) + of_nat (length (used_objs w (mp_elts p)))"
    by (intro exI [of _ p] conjI)
next
  fix fd1 res1 w1 fd2 p2
  assume a: "ml_inference_result w fd1 = Inr (res1, w1) \<and> 0 < nb_used (priv w1)
        \<and> pool_of w1 fd2 = Some p2 \<and> used_objs w1 (mp_elts p2) = []
        \<and> sum_list (error_count (priv w1)) = 0"
  then have po: "pool_of w1 fd2 = Some p2" and u: "used_objs w1 (mp_elts p2) = []"
    and n: "0 < nb_used (priv w1)" and s: "sum_list (error_count (priv w1)) = 0"
    by simp_all
  show "ml_inference_result w1 fd2 = Inr (ML_TEST_SUCCESS, set_result ML_TEST_SUCCESS w1)"
    using inference_result_unused [OF po u] n s by simp
qed

theorem nb_used_never_reset_witness:
  "nb_used (priv demo_done) = 0
   \<and> (\<exists>w1. ml_inference_result demo_done 0 = Inr (ML_TEST_SUCCESS, w1)
         \<and> nb_used (priv w1) = 1
         \<and> (\<exists>p2. pool_of w1 1 = Some p2 \<and> used_objs w1 (mp_elts p2) = [])
         \<and> ml_inference_result w1 1 = Inr (ML_TEST_SUCCESS, set_result ML_TEST_SUCCESS w1))"
proof -
  obtain w1 where r: "ml_inference_result demo_done 0 = Inr (ML_TEST_SUCCESS, w1)"
    using demo_done_success by (auto split: sum.splits)
  from inference_result_Inr [OF r] obtain p where
    po: "pool_of demo_done 0 = Some p"
    and w1: "w1 = set_result ML_TEST_SUCCESS
                    (add_used (of_nat (length (used_objs demo_done (mp_elts p)))) demo_done)"
    by (elim exE conjE)
  from po have p: "mp_elts p = [328, 376]"
    by (auto simp: demo_done_pool0)
  have n1: "nb_used (priv w1) = 1"
    unfolding w1 p by (simp add: demo_done_used0 demo_done_nb_used)
  have po2: "pool_of w1 1 = Some \<lparr> mp_size = 2, mp_elt_size = 48,
                    mp_elts = [432, 480], mp_avail = [432, 480] \<rparr>"
    unfolding w1 by (simp add: demo_done_pool1)
  have u2: "used_objs w1 (mp_elts \<lparr> mp_size = 2, mp_elt_size = 48,
                    mp_elts = [432, 480], mp_avail = [432, 480] \<rparr>) = []"
    unfolding w1 by (simp add: demo_done_used1)
  have s: "sum_list (error_count (priv w1)) = 0"
    unfolding w1 by (simp add: demo_done_errors)
  have pos: "0 < nb_used (priv w1)"
    using n1 by simp
  have k: "\<forall>fd1 res1 w1 fd2 p2.
        ml_inference_result demo_done fd1 = Inr (res1, w1) \<and> 0 < nb_used (priv w1)
        \<and> pool_of w1 fd2 = Some p2 \<and> used_objs w1 (mp_elts p2) = []
        \<and> sum_list (error_count (priv w1)) = 0
        \<longrightarrow> ml_inference_result w1 fd2
              = Inr (ML_TEST_SUCCESS, set_result ML_TEST_SUCCESS w1)"
    using nb_used_never_reset [of demo_done] by (elim conjE)
  have hyp: "ml_inference_result demo_done 0 = Inr (ML_TEST_SUCCESS, w1) \<and> 0 < nb_used (priv w1)
        \<and> pool_of w1 1 = Some \<lparr> mp_size = 2, mp_elt_size = 48,
                    mp_elts = [432, 480], mp_avail = [432, 480] \<rparr>
        \<and> used_objs w1 (mp_elts \<lparr> mp_size = 2, mp_elt_size = 48,
                    mp_elts = [432, 480], mp_avail = [432, 480] \<rparr>) = []
        \<and> sum_list (error_count (priv w1)) = 0"
    using r pos po2 u2 s by (intro conjI)
  have second: "ml_inference_result w1 1 = Inr (ML_TEST_SUCCESS, set_result ML_TEST_SUCCESS w1)"
    by (rule k [rule_format, OF hyp])
  have ex2: "\<exists>p2. pool_of w1 1 = Some p2 \<and> used_objs w1 (mp_elts p2) = []"
    using po2 u2 by (intro exI conjI)
  have "\<exists>w1. ml_inference_result demo_done 0 = Inr (ML_TEST_SUCCESS, w1)
         \<and> nb_used (priv w1) = 1
         \<and> (\<exists>p2. pool_of w1 1 = Some p2 \<and> used_objs w1 (mp_elts p2) = [])
         \<and> ml_inference_result w1 1 = Inr (ML_TEST_SUCCESS, set_result ML_TEST_SUCCESS w1)"
    using r n1 ex2 second by (intro exI [of _ w1] conjI)
  then show ?thesis
    using demo_done_nb_used by (intro conjI)
qed

section \<open>A repetition count of zero\<close>

lemma enq_entry_zero:
  assumes "le < length (args (priv w))" and "nb_reqs (args (priv w) ! le) = 0"
  shows "enq_step (enq_start le) w = Inr ((enq_start le)\<lparr> e_pc := ENQ_RETURN \<rparr>, w)"
  using assms by (simp add: enq_step_def enq_start_def Let_def)

lemma enq_returned:
  assumes "le < length (args (priv w))" and "e_pc e = ENQ_RETURN" and "e_lcore e = le"
  shows "enq_step e w = Inr (e, w)"
  using assms by (simp add: enq_step_def Let_def)

lemma deq_entry_zero:
  assumes "ld < length (args (priv w))" and "ld < length (error_count (priv w))"
      and "nb_reqs (args (priv w) ! ld) = 0"
  shows "\<exists>d. deq_step poll (deq_start ld) w = Inr (d, w) \<and> d_pc d = DEQ_RETURN
             \<and> d_lcore d = ld"
  using assms by (simp add: deq_step_def deq_start_def Let_def)

lemma deq_returned:
  assumes "ld < length (args (priv w))" and "ld < length (error_count (priv w))"
      and "d_pc d = DEQ_RETURN" and "d_lcore d = ld"
  shows "deq_step poll d w = Inr (d, w)"
  using assms by (simp add: deq_step_def Let_def)

lemma run_zero:
  assumes le: "le < length (args (priv w))" "nb_reqs (args (priv w) ! le) = 0"
      and ld: "ld < length (args (priv w))" "ld < length (error_count (priv w))"
          "nb_reqs (args (priv w) ! ld) = 0"
      and e: "e = enq_start le \<or> (e_pc e = ENQ_RETURN \<and> e_lcore e = le)"
      and d: "d = deq_start ld \<or> (d_pc d = DEQ_RETURN \<and> d_lcore d = ld)"
  shows "\<exists>e' d'. run sched (e, d, w) = Inr (e', d', w)
           \<and> (ENQ \<in> set sched \<or> e_pc e = ENQ_RETURN \<longrightarrow> e_pc e' = ENQ_RETURN)
           \<and> ((\<exists>poll. DEQ poll \<in> set sched) \<or> d_pc d = DEQ_RETURN \<longrightarrow> d_pc d' = DEQ_RETURN)"
  using e d
proof (induction sched arbitrary: e d)
  case Nil
  then show ?case by simp
next
  case (Cons a sched)
  show ?case
  proof (cases a)
    case ENQ
    obtain e1 where s: "enq_step e w = Inr (e1, w)" and p: "e_pc e1 = ENQ_RETURN"
      and l: "e_lcore e1 = le"
      using Cons.prems(1) enq_entry_zero [OF le] enq_returned [OF le(1), of e]
      by (auto simp: enq_start_def)
    from Cons.IH [of e1 d] p l Cons.prems(2)
    obtain e' d' where "run sched (e1, d, w) = Inr (e', d', w)"
      "e_pc e' = ENQ_RETURN"
      "(\<exists>poll. DEQ poll \<in> set sched) \<or> d_pc d = DEQ_RETURN \<longrightarrow> d_pc d' = DEQ_RETURN"
      by auto
    with s ENQ show ?thesis
      by auto
  next
    case (DEQ poll)
    obtain d1 where s: "deq_step poll d w = Inr (d1, w)" and p: "d_pc d1 = DEQ_RETURN"
      and l: "d_lcore d1 = ld"
      using Cons.prems(2) deq_entry_zero [OF ld, of poll] deq_returned [OF ld(1,2), of d poll]
      by auto
    from Cons.IH [of e d1] p l Cons.prems(1)
    obtain e' d' where "run sched (e, d1, w) = Inr (e', d', w)"
      "d_pc d' = DEQ_RETURN"
      "ENQ \<in> set sched \<or> e_pc e = ENQ_RETURN \<longrightarrow> e_pc e' = ENQ_RETURN"
      by auto
    with s DEQ show ?thesis
      by auto
  qed
qed

text \<open>
  C4. With a repetition count of 0 assigned to both workers, the first step of each worker
  is its return, and under every schedule the state stays exactly as it was: no pool and no
  device queue is touched. If moreover the counter \<open>nb_used\<close> is 0 (as
  \<open>test_inference_setup\<close> leaves it) and the pool of a model has no dispatched buffer, then
  \<open>ml_inference_result\<close> returns \<open>ML_TEST_FAILED\<close> for that model and changes nothing but the
  stored verdict, so the same holds for the next model.
\<close>

theorem zero_repetitions_noop:
  assumes "le < length (args (priv w))" and "nb_reqs (args (priv w) ! le) = 0"
      and "ld < length (args (priv w))" and "ld < length (error_count (priv w))"
      and "nb_reqs (args (priv w) ! ld) = 0"
  shows "(\<exists>e. enq_step (enq_start le) w = Inr (e, w) \<and> e_pc e = ENQ_RETURN)
       \<and> (\<forall>poll. \<exists>d. deq_step poll (deq_start ld) w = Inr (d, w) \<and> d_pc d = DEQ_RETURN)
       \<and> (\<forall>sched. \<exists>e d. run sched (enq_start le, deq_start ld, w) = Inr (e, d, w)
             \<and> (ENQ \<in> set sched \<longrightarrow> e_pc e = ENQ_RETURN)
             \<and> ((\<exists>poll. DEQ poll \<in> set sched) \<longrightarrow> d_pc d = DEQ_RETURN))
       \<and> (\<forall>fd p. nb_used (priv w) = 0 \<and> pool_of w fd = Some p
                   \<and> used_objs w (mp_elts p) = [] \<longrightarrow>
             ml_inference_result w fd = Inr (ML_TEST_FAILED, set_result ML_TEST_FAILED w))"
proof (intro conjI allI impI)
  show "\<exists>e. enq_step (enq_start le) w = Inr (e, w) \<and> e_pc e = ENQ_RETURN"
    using enq_entry_zero [OF assms(1,2)] by simp
next
  fix poll
  show "\<exists>d. deq_step poll (deq_start ld) w = Inr (d, w) \<and> d_pc d = DEQ_RETURN"
    using deq_entry_zero [OF assms(3,4,5), of poll] by blast
next
  fix sched
  have "\<exists>e' d'. run sched (enq_start le, deq_start ld, w) = Inr (e', d', w)
           \<and> (ENQ \<in> set sched \<or> e_pc (enq_start le) = ENQ_RETURN \<longrightarrow> e_pc e' = ENQ_RETURN)
           \<and> ((\<exists>poll. DEQ poll \<in> set sched) \<or> d_pc (deq_start ld) = DEQ_RETURN
                 \<longrightarrow> d_pc d' = DEQ_RETURN)"
    by (rule run_zero [OF assms]) simp_all
  then show "\<exists>e d. run sched (enq_start le, deq_start ld, w) = Inr (e, d, w)
             \<and> (ENQ \<in> set sched \<longrightarrow> e_pc e = ENQ_RETURN)
             \<and> ((\<exists>poll. DEQ poll \<in> set sched) \<longrightarrow> d_pc d = DEQ_RETURN)"
    by blast
next
  fix fd p
  assume a: "nb_used (priv w) = 0 \<and> pool_of w fd = Some p \<and> used_objs w (mp_elts p) = []"
  then have po: "pool_of w fd = Some p" and u: "used_objs w (mp_elts p) = []"
    and n: "nb_used (priv w) = 0"
    by simp_all
  show "ml_inference_result w fd = Inr (ML_TEST_FAILED, set_result ML_TEST_FAILED w)"
    using inference_result_unused [OF po u] n by simp
qed

lemma demo_built_zero:
  "1 < length (args (priv demo_built)) \<and> nb_reqs (args (priv demo_built) ! 1) = 0
   \<and> 2 < length (args (priv demo_built)) \<and> 2 < length (error_count (priv demo_built))
   \<and> nb_reqs (args (priv demo_built) ! 2) = 0 \<and> nb_used (priv demo_built) = 0"
  by code_simp

lemma demo_built_pool0:
  "pool_of demo_built 0 = Some \<lparr> mp_size = 2, mp_elt_size = 48,
                    mp_elts = [328, 376], mp_avail = [328, 376] \<rparr>"
  by code_simp

lemma demo_built_pool1:
  "pool_of demo_built 1 = Some \<lparr> mp_size = 2, mp_elt_size = 48,
                    mp_elts = [432, 480], mp_avail = [432, 480] \<rparr>"
  by code_simp

lemma demo_built_unused:
  "used_objs demo_built [328, 376] = [] \<and> used_objs demo_built [432, 480] = []"
  by code_simp

theorem zero_repetitions_noop_witness:
  "nb_reqs (args (priv demo_built) ! 1) = 0 \<and> nb_reqs (args (priv demo_built) ! 2) = 0
   \<and> (\<exists>e d. run demo_sched (enq_start 1, deq_start 2, demo_built) = Inr (e, d, demo_built)
          \<and> e_pc e = ENQ_RETURN \<and> d_pc d = DEQ_RETURN)
   \<and> ml_inference_result demo_built 0 = Inr (ML_TEST_FAILED, set_result ML_TEST_FAILED demo_built)
   \<and> ml_inference_result demo_built 1 = Inr (ML_TEST_FAILED, set_result ML_TEST_FAILED demo_built)"
proof -
  note z = demo_built_zero [THEN conjunct1] demo_built_zero [THEN conjunct2, THEN conjunct1]
    demo_built_zero [THEN conjunct2, THEN conjunct2, THEN conjunct1]
    demo_built_zero [THEN conjunct2, THEN conjunct2, THEN conjunct2, THEN conjunct1]
    demo_built_zero [THEN conjunct2, THEN conjunct2, THEN conjunct2, THEN conjunct2, THEN conjunct1]
  note t = zero_repetitions_noop [OF z]
  have n: "nb_used (priv demo_built) = 0"
    using demo_built_zero by simp
  have s: "ENQ \<in> set demo_sched" "\<exists>poll. DEQ poll \<in> set demo_sched"
    by (auto simp: demo_sched_def)
  from t have "\<exists>e d. run demo_sched (enq_start 1, deq_start 2, demo_built) = Inr (e, d, demo_built)
             \<and> (ENQ \<in> set demo_sched \<longrightarrow> e_pc e = ENQ_RETURN)
             \<and> ((\<exists>poll. DEQ poll \<in> set demo_sched) \<longrightarrow> d_pc d = DEQ_RETURN)"
    by blast
  with s have r: "\<exists>e d. run demo_sched (enq_start 1, deq_start 2, demo_built) = Inr (e, d, demo_built)
          \<and> e_pc e = ENQ_RETURN \<and> d_pc d = DEQ_RETURN"
    by blast
  from t have k: "\<forall>fd p. nb_used (priv demo_built) = 0 \<and> pool_of demo_built fd = Some p
                   \<and> used_objs demo_built (mp_elts p) = [] \<longrightarrow>
             ml_inference_result demo_built fd
               = Inr (ML_TEST_FAILED, set_result ML_TEST_FAILED demo_built)"
    by (elim conjE)
  have f0: "ml_inference_result demo_built 0
              = Inr (ML_TEST_FAILED, set_result ML_TEST_FAILED demo_built)"
    using k [rule_format, of 0] n demo_built_pool0 demo_built_unused by simp
  have f1: "ml_inference_result demo_built 1
              = Inr (ML_TEST_FAILED, set_result ML_TEST_FAILED demo_built)"
    using k [rule_format, of 1] n demo_built_pool1 demo_built_unused by simp
  show ?thesis
    using z(2) z(5) r f0 f1 by (intro conjI)
qed

section \<open>What the dequeue worker releases\<close>

lemma avail_of_put:
  assumes "mempools w nm = Some pl"
  shows "\<exists>w'. rte_mempool_put (Some nm) obj w = Inr w'
           \<and> mempools w' = (mempools w)(nm \<mapsto> pl\<lparr> mp_avail := obj # mp_avail pl \<rparr>)
           \<and> priv w' = priv w \<and> reqs w' = reqs w \<and> ops w' = ops w \<and> dev w' = dev w"
  using assms by (simp add: rte_mempool_put_def)

lemma deq_complete_releases:
  assumes f: "unat (fid (reqs w (user_ptr (ops w p)))) < length (model (priv w))"
      and io: "io_pool (model (priv w) ! unat (fid (reqs w (user_ptr (ops w p))))) = Some nio"
      and pio: "mempools w nio = Some pio"
      and op: "op_pool (priv w) = Some nop"
      and pop: "mempools w nop = Some pop"
  shows "\<exists>w'. deq_complete l p w = Inr w'
           \<and> avail_of w' nio = (if nio = nop then p # user_ptr (ops w p) # avail_of w nio
                                 else user_ptr (ops w p) # avail_of w nio)
           \<and> avail_of w' nop = (if nio = nop then p # user_ptr (ops w p) # avail_of w nop
                                 else p # avail_of w nop)
           \<and> (\<forall>n. n \<noteq> nio \<and> n \<noteq> nop \<longrightarrow> mempools w' n = mempools w n)
           \<and> dev w' = dev w \<and> ops w' = ops w \<and> reqs w' = reqs w
           \<and> error_count (priv w') =
                (if status (ops w p) = RTE_ML_OP_STATUS_ERROR
                 then (error_count (priv w))[l := error_count (priv w) ! l + 1]
                 else error_count (priv w))"
proof -
  let ?w1 = "if status (ops w p) = RTE_ML_OP_STATUS_ERROR
             then w\<lparr> priv := (priv w)\<lparr> error_count := (error_count (priv w))
                           [l := error_count (priv w) ! l + 1] \<rparr> \<rparr>
             else w"
  let ?q = "user_ptr (ops w p)"
  have e1: "ops ?w1 = ops w" "reqs ?w1 = reqs w" "mempools ?w1 = mempools w"
    "model (priv ?w1) = model (priv w)" "op_pool (priv ?w1) = op_pool (priv w)"
    "dev ?w1 = dev w"
    by simp_all
  have pio1: "mempools ?w1 nio = Some pio"
    using pio by simp
  from avail_of_put [OF pio1, of ?q] obtain w2 where
    p1: "rte_mempool_put (Some nio) ?q ?w1 = Inr w2"
    and m2: "mempools w2 = (mempools ?w1)(nio \<mapsto> pio\<lparr> mp_avail := ?q # mp_avail pio \<rparr>)"
    and f2: "priv w2 = priv ?w1" "reqs w2 = reqs ?w1" "ops w2 = ops ?w1" "dev w2 = dev ?w1"
    by (elim exE conjE)
  obtain pop2 where pop2: "mempools w2 nop = Some pop2"
    and a2: "mp_avail pop2 = (if nio = nop then ?q # mp_avail pop else mp_avail pop)"
    using m2 pop pio by (cases "nio = nop") auto
  from avail_of_put [OF pop2, of p] obtain w3 where
    p2: "rte_mempool_put (Some nop) p w2 = Inr w3"
    and m3: "mempools w3 = (mempools w2)(nop \<mapsto> pop2\<lparr> mp_avail := p # mp_avail pop2 \<rparr>)"
    and f3: "priv w3 = priv w2" "reqs w3 = reqs w2" "ops w3 = ops w2" "dev w3 = dev w2"
    by (elim exE conjE)
  have c: "deq_complete l p w = Inr w3"
    using f io op p1 p2 f2(1)
    by (simp add: deq_complete_def Let_def split: if_splits)
  have av1: "avail_of w3 nio = (if nio = nop then p # ?q # avail_of w nio
                                 else ?q # avail_of w nio)"
    using m3 m2 a2 pio pop by (auto simp: avail_of_def)
  have av2: "avail_of w3 nop = (if nio = nop then p # ?q # avail_of w nop
                                 else p # avail_of w nop)"
    using m3 m2 a2 pio pop by (auto simp: avail_of_def)
  have others: "\<forall>n. n \<noteq> nio \<and> n \<noteq> nop \<longrightarrow> mempools w3 n = mempools w n"
    using m3 m2 by simp
  have fr: "dev w3 = dev w" "ops w3 = ops w" "reqs w3 = reqs w"
    using f3 f2 e1 by simp_all
  have ec: "error_count (priv w3) =
                (if status (ops w p) = RTE_ML_OP_STATUS_ERROR
                 then (error_count (priv w))[l := error_count (priv w) ! l + 1]
                 else error_count (priv w))"
    using f3(1) f2(1) by simp
  show ?thesis
    using c av1 av2 others fr ec by (intro exI [of _ w3] conjI)
qed

lemma dequeue_burst_Some:
  assumes "k < length (inflight (dev w))"
  shows "rte_ml_dequeue_burst (Some (k, st)) w =
           (Some (inflight (dev w) ! k),
            w\<lparr> dev := (dev w)\<lparr> inflight := take k (inflight (dev w)) @ drop (Suc k) (inflight (dev w)),
                                dequeued_count := dequeued_count (dev w) + 1 \<rparr>,
               ops := (ops w)(inflight (dev w) ! k := (ops w (inflight (dev w) ! k))\<lparr> status := st \<rparr>) \<rparr>)"
  using assms by (simp add: rte_ml_dequeue_burst_def Let_def)

text \<open>
  C6. When the dequeue worker stands at the label \<open>dequeue_req\<close> and the device hands it an
  in-flight operation \<open>p\<close> with any status \<open>st\<close>, the step succeeds whenever the pool of the
  model recorded in the buffer \<open>q = p->user_ptr\<close> and the operation pool exist, and then the
  buffer \<open>q\<close> is put back into the pool of exactly that model and the operation \<open>p\<close> into the
  operation pool, in the same step; no other pool changes; the completion is counted, and
  only an error status touches the error counter of the lcore. A poll that delivers nothing
  releases nothing.
\<close>

theorem dequeue_releases_both:
  assumes "d_pc th = DEQ_DEQUEUE_REQ"
      and "d_lcore th < length (args (priv w))"
      and "d_lcore th < length (error_count (priv w))"
      and "k < length (inflight (dev w))"
      and "p = inflight (dev w) ! k" and "q = user_ptr (ops w p)"
      and "unat (fid (reqs w q)) < length (model (priv w))"
      and "io_pool (model (priv w) ! unat (fid (reqs w q))) = Some nio"
      and "mempools w nio = Some pio"
      and "op_pool (priv w) = Some nop" and "mempools w nop = Some pop"
  shows "(\<exists>th' w'. deq_step (Some (k, st)) th w = Inr (th', w')
           \<and> avail_of w' nio = (if nio = nop then p # q # avail_of w nio
                                 else q # avail_of w nio)
           \<and> avail_of w' nop = (if nio = nop then p # q # avail_of w nop
                                 else p # avail_of w nop)
           \<and> (\<forall>n. n \<noteq> nio \<and> n \<noteq> nop \<longrightarrow> mempools w' n = mempools w n)
           \<and> inflight (dev w') = take k (inflight (dev w)) @ drop (Suc k) (inflight (dev w))
           \<and> d_total_deq th' = d_total_deq th + 1
           \<and> error_count (priv w') =
                (if st = RTE_ML_OP_STATUS_ERROR
                 then (error_count (priv w))[d_lcore th := error_count (priv w) ! d_lcore th + 1]
                 else error_count (priv w)))
         \<and> (\<forall>th' w'. deq_step None th w = Inr (th', w') \<longrightarrow> w' = w)"
proof (intro conjI allI impI)
  let ?w1 = "w\<lparr> dev := (dev w)\<lparr> inflight := take k (inflight (dev w)) @ drop (Suc k) (inflight (dev w)),
                                dequeued_count := dequeued_count (dev w) + 1 \<rparr>,
               ops := (ops w)(p := (ops w p)\<lparr> status := st \<rparr>) \<rparr>"
  have b: "rte_ml_dequeue_burst (Some (k, st)) w = (Some p, ?w1)"
    using dequeue_burst_Some [OF assms(4), of st] assms(5) by simp
  have u: "user_ptr (ops ?w1 p) = q" "reqs ?w1 = reqs w" "priv ?w1 = priv w"
    "mempools ?w1 = mempools w" "status (ops ?w1 p) = st"
    using assms(6) by simp_all
  have h1: "unat (fid (reqs ?w1 (user_ptr (ops ?w1 p)))) < length (model (priv ?w1))"
    using assms(7) u by simp
  have h2: "io_pool (model (priv ?w1) ! unat (fid (reqs ?w1 (user_ptr (ops ?w1 p))))) = Some nio"
    using assms(8) u by simp
  have h3: "mempools ?w1 nio = Some pio" "op_pool (priv ?w1) = Some nop"
    "mempools ?w1 nop = Some pop"
    using assms(9,10,11) by simp_all
  from deq_complete_releases [OF h1 h2 h3, of "d_lcore th"] obtain w3 where
    c: "deq_complete (d_lcore th) p ?w1 = Inr w3"
    and av1: "avail_of w3 nio = (if nio = nop then p # user_ptr (ops ?w1 p) # avail_of ?w1 nio
                                 else user_ptr (ops ?w1 p) # avail_of ?w1 nio)"
    and av2: "avail_of w3 nop = (if nio = nop then p # user_ptr (ops ?w1 p) # avail_of ?w1 nop
                                 else p # avail_of ?w1 nop)"
    and others: "\<forall>n. n \<noteq> nio \<and> n \<noteq> nop \<longrightarrow> mempools w3 n = mempools ?w1 n"
    and fr: "dev w3 = dev ?w1"
    and ec: "error_count (priv w3) =
                (if status (ops ?w1 p) = RTE_ML_OP_STATUS_ERROR
                 then (error_count (priv ?w1))[d_lcore th := error_count (priv ?w1) ! d_lcore th + 1]
                 else error_count (priv ?w1))"
    by (elim exE conjE)
  let ?th1 = "th\<lparr> d_total_deq := d_total_deq th + 1 \<rparr>"
  let ?th' = "if d_total_deq ?th1 < nb_reqs (args (priv w) ! d_lcore th) * ucast (d_nb_filelist ?th1)
              then ?th1 else ?th1\<lparr> d_pc := DEQ_RETURN \<rparr>"
  have s: "deq_step (Some (k, st)) th w = Inr (?th', w3)"
    using assms(1,2,3) b c by (simp add: deq_step_def Let_def)
  have a1: "avail_of w3 nio = (if nio = nop then p # q # avail_of w nio else q # avail_of w nio)"
    using av1 u(1) by (simp add: avail_of_def)
  have a2: "avail_of w3 nop = (if nio = nop then p # q # avail_of w nop else p # avail_of w nop)"
    using av2 u(1) by (simp add: avail_of_def)
  have o: "\<forall>n. n \<noteq> nio \<and> n \<noteq> nop \<longrightarrow> mempools w3 n = mempools w n"
    using others by simp
  have i: "inflight (dev w3) = take k (inflight (dev w)) @ drop (Suc k) (inflight (dev w))"
    using fr by simp
  have t: "d_total_deq ?th' = d_total_deq th + 1"
    by simp
  have e: "error_count (priv w3) =
                (if st = RTE_ML_OP_STATUS_ERROR
                 then (error_count (priv w))[d_lcore th := error_count (priv w) ! d_lcore th + 1]
                 else error_count (priv w))"
    using ec by simp
  show "\<exists>th' w'. deq_step (Some (k, st)) th w = Inr (th', w')
           \<and> avail_of w' nio = (if nio = nop then p # q # avail_of w nio
                                 else q # avail_of w nio)
           \<and> avail_of w' nop = (if nio = nop then p # q # avail_of w nop
                                 else p # avail_of w nop)
           \<and> (\<forall>n. n \<noteq> nio \<and> n \<noteq> nop \<longrightarrow> mempools w' n = mempools w n)
           \<and> inflight (dev w') = take k (inflight (dev w)) @ drop (Suc k) (inflight (dev w))
           \<and> d_total_deq th' = d_total_deq th + 1
           \<and> error_count (priv w') =
                (if st = RTE_ML_OP_STATUS_ERROR
                 then (error_count (priv w))[d_lcore th := error_count (priv w) ! d_lcore th + 1]
                 else error_count (priv w))"
    using s a1 a2 o i t e by (intro exI [of _ ?th'] exI [of _ w3] conjI)
next
  fix th' w'
  assume "deq_step None th w = Inr (th', w')"
  then show "w' = w"
    using assms(1,2,3)
    by (auto simp: deq_step_def rte_ml_dequeue_burst_def Let_def split: if_splits)
qed

lemma demo_inflight_facts:
  "d_pc demo_deq = DEQ_DEQUEUE_REQ"
  "d_lcore demo_deq < length (args (priv demo_inflight))"
  "d_lcore demo_deq < length (error_count (priv demo_inflight))"
  "0 < length (inflight (dev demo_inflight))"
  "64 = inflight (dev demo_inflight) ! 0"
  "328 = user_ptr (ops demo_inflight 64)"
  "unat (fid (reqs demo_inflight 328)) < length (model (priv demo_inflight))"
  "io_pool (model (priv demo_inflight) ! unat (fid (reqs demo_inflight 328))) = Some ''ml_io_pool_0''"
  "mempools demo_inflight ''ml_io_pool_0'' = Some \<lparr> mp_size = 2, mp_elt_size = 48,
                    mp_elts = [328, 376], mp_avail = [376] \<rparr>"
  "op_pool (priv demo_inflight) = Some ''ml_test_op_pool''"
  "mempools demo_inflight ''ml_test_op_pool'' = Some \<lparr> mp_size = 4, mp_elt_size = 64,
                    mp_elts = [64, 128, 192, 256], mp_avail = [128, 192, 256] \<rparr>"
  by code_simp+

lemma demo_inflight_avail:
  "avail_of demo_inflight ''ml_io_pool_0'' = [376]"
  "avail_of demo_inflight ''ml_test_op_pool'' = [128, 192, 256]"
  "error_count (priv demo_inflight) = [0, 0, 0, 0]"
  "inflight (dev demo_inflight) = [64]"
  "d_lcore demo_deq = 2"
  by code_simp+

theorem dequeue_releases_both_witness:
  "\<exists>th' w'. deq_step (Some (0, RTE_ML_OP_STATUS_ERROR)) demo_deq demo_inflight = Inr (th', w')
      \<and> avail_of w' ''ml_io_pool_0'' = [328, 376]
      \<and> avail_of w' ''ml_test_op_pool'' = [64, 128, 192, 256]
      \<and> inflight (dev w') = []
      \<and> error_count (priv w') = [0, 0, 1, 0]"
proof -
  note t = dequeue_releases_both [OF demo_inflight_facts, of RTE_ML_OP_STATUS_ERROR,
      THEN conjunct1]
  then obtain th' w' where
    s: "deq_step (Some (0, RTE_ML_OP_STATUS_ERROR)) demo_deq demo_inflight = Inr (th', w')"
    and a1: "avail_of w' ''ml_io_pool_0'' =
              (if ''ml_io_pool_0'' = ''ml_test_op_pool''
               then 64 # 328 # avail_of demo_inflight ''ml_io_pool_0''
               else 328 # avail_of demo_inflight ''ml_io_pool_0'')"
    and a2: "avail_of w' ''ml_test_op_pool'' =
              (if ''ml_io_pool_0'' = ''ml_test_op_pool''
               then 64 # 328 # avail_of demo_inflight ''ml_test_op_pool''
               else 64 # avail_of demo_inflight ''ml_test_op_pool'')"
    and i: "inflight (dev w') = take 0 (inflight (dev demo_inflight))
                                 @ drop (Suc 0) (inflight (dev demo_inflight))"
    and e: "error_count (priv w') =
                (if RTE_ML_OP_STATUS_ERROR = RTE_ML_OP_STATUS_ERROR
                 then (error_count (priv demo_inflight))[d_lcore demo_deq :=
                        error_count (priv demo_inflight) ! d_lcore demo_deq + 1]
                 else error_count (priv demo_inflight))"
    by (elim exE conjE)
  have b1: "avail_of w' ''ml_io_pool_0'' = [328, 376]"
    using a1 by (simp add: demo_inflight_avail)
  have b2: "avail_of w' ''ml_test_op_pool'' = [64, 128, 192, 256]"
    using a2 by (simp add: demo_inflight_avail)
  have b3: "inflight (dev w') = []"
    using i by (simp add: demo_inflight_avail)
  have b4: "error_count (priv w') = [0, 0, 1, 0]"
    using e by (simp add: demo_inflight_avail)
  show ?thesis
    using s b1 b2 b3 b4 by (intro exI [of _ th'] exI [of _ w'] conjI)
qed

section \<open>An input file of the wrong size\<close>



lemma upd_model_frame [simp]:
  "memzones (upd_model i f w) = memzones w" "mem_free (upd_model i f w) = mem_free w"
  "files (upd_model i f w) = files w" "next_addr (upd_model i f w) = next_addr w"
  "dev (upd_model i f w) = dev w" "reqs (upd_model i f w) = reqs w"
  by (simp_all add: upd_model_def)







text \<open>
  The length of the file is compared after it was stored in 32 bits: a file of \<open>2^32 + 4\<close>
  bytes passes the comparison with a declared size of four bytes.
\<close>

lemma load_input_file_truncates:
  "fst (load_input_file (demo_built\<lparr> files := [''i0.bin'' \<mapsto> 4294967300] \<rparr>) demo_opt 0) = None"
  by (simp add: load_input_file_def demo_built_def demo_opt_def demo_model_def Let_def)

end
